theory Spec2Isabelle
  imports Main
begin

section \<open>JavaScript values read by the chat client\<close>

text \<open>
  The streaming code of \<^verbatim>\<open>src/pages/Chat.tsx\<close> and \<^verbatim>\<open>src/hooks/useChat.ts\<close>
  hands every \<^verbatim>\<open>data:\<close> payload to \<^verbatim>\<open>JSON.parse\<close> and then reads properties of
  the result, tests them for truthiness, compares them with \<^verbatim>\<open>===\<close> and appends them
  to a string with \<^verbatim>\<open>+=\<close>.  The values \<^verbatim>\<open>JSON.parse\<close> can return are modelled by
  the datatype below.  A number is represented by the text that JavaScript's
  number-to-string conversion gives it; that text is canonical, so two parsed numbers
  are \<^verbatim>\<open>===\<close> exactly when their texts are equal, and zero of either sign is
  \<^verbatim>\<open>0\<close>.  An object is the list of its properties in which the first binding of a
  name is the effective one.  Text is a list of characters, each standing for one code
  unit below 256.  The value \<^verbatim>\<open>undefined\<close> is \<open>None\<close> of type \<open>jsval\<close>.
\<close>

datatype json =
    JNull
  | JBool bool
  | JNum string
  | JStr string
  | JArr "json list"
  | JObj "(string \<times> json) list"

type_synonym jsval = "json option"

text \<open>The values a \<^verbatim>\<open>throw\<close> or a rejected promise carries in this code.\<close>

datatype exn =
    TypeError
  | SyntaxError
  | NetworkError
  | ApiError nat
  | NoResponseBody
  | ReadError

text \<open>
  Property read \<^verbatim>\<open>data.p\<close> on a parsed value other than \<^verbatim>\<open>null\<close>, for the property
  names the code reads (\<^verbatim>\<open>tool\<close>, \<^verbatim>\<open>file\<close>, \<^verbatim>\<open>action\<close>, \<^verbatim>\<open>status\<close>, \<^verbatim>\<open>content\<close>,
  \<^verbatim>\<open>response\<close>, \<^verbatim>\<open>message\<close>, \<^verbatim>\<open>toolCalls\<close>): none of them is defined on a
  prototype, so primitives and arrays give \<^verbatim>\<open>undefined\<close> and an object gives its own
  property.  Reading a property of \<^verbatim>\<open>null\<close> throws; the callers below test for it.
\<close>

fun field :: "json \<Rightarrow> string \<Rightarrow> jsval" where
  "field (JObj kvs) p = map_of kvs p"
| "field _ p = None"

fun truthy :: "jsval \<Rightarrow> bool" where
  "truthy None = False"
| "truthy (Some JNull) = False"
| "truthy (Some (JBool b)) = b"
| "truthy (Some (JNum n)) = (n \<noteq> ''0'')"
| "truthy (Some (JStr s)) = (s \<noteq> [])"
| "truthy (Some (JArr xs)) = True"
| "truthy (Some (JObj kvs)) = True"

text \<open>
  \<^verbatim>\<open>a === b\<close> for two values that come from two different calls of \<^verbatim>\<open>JSON.parse\<close>
  (or from a literal): primitives compare by value, two arrays or objects are never the
  same reference.
\<close>

fun strict_eq :: "jsval \<Rightarrow> jsval \<Rightarrow> bool" where
  "strict_eq None None = True"
| "strict_eq (Some JNull) (Some JNull) = True"
| "strict_eq (Some (JBool a)) (Some (JBool b)) = (a = b)"
| "strict_eq (Some (JNum a)) (Some (JNum b)) = (a = b)"
| "strict_eq (Some (JStr a)) (Some (JStr b)) = (a = b)"
| "strict_eq _ _ = False"

fun join_comma :: "string list \<Rightarrow> string" where
  "join_comma [] = []"
| "join_comma [x] = x"
| "join_comma (x # y # ys) = x @ '','' @ join_comma (y # ys)"

text \<open>
  The text that \<^verbatim>\<open>s += v\<close> appends for a parsed value \<open>v\<close>; \<open>None\<close> when the
  conversion throws a TypeError (an object whose own \<^verbatim>\<open>toString\<close> property hides the
  inherited method).  An array is joined with commas, \<^verbatim>\<open>null\<close> elements giving the
  empty text.
\<close>

fun to_string :: "json \<Rightarrow> string option" where
  "to_string JNull = Some ''null''"
| "to_string (JBool b) = Some (if b then ''true'' else ''false'')"
| "to_string (JNum n) = Some n"
| "to_string (JStr s) = Some s"
| "to_string (JArr xs) =
     map_option join_comma (those (map (\<lambda>x. if x = JNull then Some [] else to_string x) xs))"
| "to_string (JObj kvs) =
     (if ''toString'' \<in> fst ` set kvs then None else Some ''[object Object]'')"

fun concat_value :: "jsval \<Rightarrow> string option" where
  "concat_value None = Some ''undefined''"
| "concat_value (Some v) = to_string v"

section \<open>String helpers\<close>

definition is_space :: "char \<Rightarrow> bool" where
  "is_space c \<longleftrightarrow> c \<in> {CHR 0x09, CHR 0x0A, CHR 0x0B, CHR 0x0C, CHR 0x0D, CHR 0x20, CHR 0xA0}"

definition trim :: "string \<Rightarrow> string" where
  "trim s = rev (dropWhile is_space (rev (dropWhile is_space s)))"

definition startsWith :: "string \<Rightarrow> string \<Rightarrow> bool" where
  "startsWith s p \<longleftrightarrow> take (length p) s = p"

definition slice :: "string \<Rightarrow> nat \<Rightarrow> string" where
  "slice s n = drop n s"

text \<open>\<^verbatim>\<open>s.split('\n')\<close>: the pieces between line feeds, never an empty list.\<close>

fun split_nl :: "string \<Rightarrow> string list" where
  "split_nl [] = [[]]"
| "split_nl (c # cs) =
     (if c = CHR 0x0A then [] # split_nl cs
      else (case split_nl cs of [] \<Rightarrow> [[c]] | l # ls \<Rightarrow> (c # l) # ls))"

section \<open>The streaming reply pipeline\<close>

text \<open>
  \<^verbatim>\<open>ProgressStep\<close> of \<^verbatim>\<open>src/types/chat.ts\<close>.  The streaming code fills the fields from
  the parsed payload without checking their types, so each field holds a JavaScript
  value; \<^verbatim>\<open>status\<close> is \<^verbatim>\<open>data.status || 'running'\<close> and therefore never
  \<^verbatim>\<open>undefined\<close>.
\<close>

record ProgressStep =
  tool :: jsval
  "file" :: jsval
  action :: jsval
  status :: json
  step_content :: jsval

text \<open>
  The variables of the read loop of \<^verbatim>\<open>sendMessage\<close> and the React state it writes:
  \<^verbatim>\<open>buffer\<close>, \<^verbatim>\<open>currentEventType\<close>, \<^verbatim>\<open>streamingContentRef.current\<close>,
  \<^verbatim>\<open>streamingContent\<close>, \<^verbatim>\<open>isThinking\<close> and \<^verbatim>\<open>progressSteps\<close>.
\<close>

record stream_state =
  buffer :: string
  currentEventType :: string
  streamingContentRef :: string
  streamingContent :: string
  isThinking :: bool
  progressSteps :: "ProgressStep list"

fun findIndex :: "('a \<Rightarrow> bool) \<Rightarrow> 'a list \<Rightarrow> nat option" where
  "findIndex P [] = None"
| "findIndex P (x # xs) =
     (if P x then Some 0 else map_option Suc (findIndex P xs))"

text \<open>The predicate of \<^verbatim>\<open>prev.findIndex(s => s.tool === data.tool && s.file === data.file)\<close>.\<close>

definition same_key :: "ProgressStep \<Rightarrow> ProgressStep \<Rightarrow> bool" where
  "same_key new s \<longleftrightarrow> strict_eq (tool s) (tool new) \<and> strict_eq (file s) (file new)"

text \<open>The updater passed to \<^verbatim>\<open>setProgressSteps\<close>.\<close>

definition upsert :: "ProgressStep list \<Rightarrow> ProgressStep \<Rightarrow> ProgressStep list" where
  "upsert prev newStep =
     (case findIndex (same_key newStep) prev of
        Some existingIndex \<Rightarrow> prev[existingIndex := newStep]
      | None \<Rightarrow> prev @ [newStep])"

definition newStep :: "json \<Rightarrow> ProgressStep" where
  "newStep data =
     \<lparr> tool = field data ''tool'',
       file = field data ''file'',
       action = field data ''action'',
       status = (if truthy (field data ''status'') then the (field data ''status'')
                 else JStr ''running''),
       step_content = field data ''content'' \<rparr>"

text \<open>
  The \<^verbatim>\<open>switch (currentEventType)\<close> inside the \<^verbatim>\<open>try\<close>.  The result is the state
  reached together with the exception that leaves the \<^verbatim>\<open>switch\<close>, if any: a property
  read on \<^verbatim>\<open>null\<close>, or the conversion of \<^verbatim>\<open>data.content\<close> to text, which comes after
  \<^verbatim>\<open>setProgressSteps\<close> has been called.
\<close>

definition dispatch :: "stream_state \<Rightarrow> json \<Rightarrow> exn option \<times> stream_state" where
  "dispatch st data =
     (if currentEventType st = ''thinking'' then
        (if data = JNull then (Some TypeError, st)
         else (None, st\<lparr>isThinking :=
                 strict_eq (field data ''status'') (Some (JStr ''starting''))
                 \<or> strict_eq (field data ''status'') (Some (JStr ''queued''))\<rparr>))
      else if currentEventType st = ''progress'' then
        (if data = JNull then (Some TypeError, st)
         else
           let st1 =
             (if truthy (field data ''tool'') \<or> truthy (field data ''file'')
                 \<or> truthy (field data ''action'')
              then st\<lparr>progressSteps := upsert (progressSteps st) (newStep data)\<rparr>
              else st)
           in (case concat_value (field data ''content'') of
                 None \<Rightarrow> (Some TypeError, st1)
               | Some txt \<Rightarrow>
                   (None, st1\<lparr>streamingContentRef := streamingContentRef st1 @ txt,
                               streamingContent := streamingContentRef st1 @ txt\<rparr>)))
      else if currentEventType st = ''error'' then
        (if data = JNull then (Some TypeError, st) else (None, st))
      else (None, st))"

text \<open>The \<^verbatim>\<open>catch\<close> of the payload handler: the payload text is appended as it is.\<close>

definition append_raw :: "stream_state \<Rightarrow> string \<Rightarrow> stream_state" where
  "append_raw st dataContent =
     st\<lparr>streamingContentRef := streamingContentRef st @ dataContent,
        streamingContent := streamingContentRef st @ dataContent\<rparr>"

text \<open>
  The body of \<^verbatim>\<open>for (const line of lines)\<close>.  \<open>parse\<close> is \<^verbatim>\<open>JSON.parse\<close>, a
  function of the host: \<open>None\<close> when it throws a SyntaxError.
\<close>

definition process_line ::
  "(string \<Rightarrow> json option) \<Rightarrow> stream_state \<Rightarrow> string \<Rightarrow> stream_state" where
  "process_line parse st line =
     (if trim line = [] \<or> startsWith line '':'' then st
      else if startsWith line ''event:'' then
        st\<lparr>currentEventType := trim (slice line 6)\<rparr>
      else if startsWith line ''data:'' then
        (let dataContent = trim (slice line 5);
             st' = (case parse dataContent of
                      None \<Rightarrow> append_raw st dataContent
                    | Some data \<Rightarrow>
                        (case dispatch st data of
                           (None, st1) \<Rightarrow> st1
                         | (Some e, st1) \<Rightarrow> append_raw st1 dataContent))
         in st'\<lparr>currentEventType := ''message''\<rparr>)
      else st)"

text \<open>
  One turn of \<^verbatim>\<open>while (true)\<close> after a read that delivered the decoded text
  \<open>chunk\<close>: append it to the buffer, split at line feeds, keep the last piece as
  the new buffer and process the others.
\<close>

definition feed ::
  "(string \<Rightarrow> json option) \<Rightarrow> stream_state \<Rightarrow> string \<Rightarrow> stream_state" where
  "feed parse st chunk =
     (let lines = split_nl (buffer st @ chunk)
      in foldl (process_line parse) (st\<lparr>buffer := last lines\<rparr>) (butlast lines))"

text \<open>
  The state at the start of the loop: \<^verbatim>\<open>sendMessage\<close> has reset the streaming
  content and the thinking flag, and the progress list is empty (initially, and after
  the \<^verbatim>\<open>finally\<close> of the previous call).
\<close>

definition init_stream :: stream_state where
  "init_stream =
     \<lparr> buffer = [], currentEventType = ''message'', streamingContentRef = [],
       streamingContent = [], isThinking = False, progressSteps = [] \<rparr>"

definition run_stream :: "(string \<Rightarrow> json option) \<Rightarrow> string list \<Rightarrow> stream_state" where
  "run_stream parse chunks = foldl (feed parse) init_stream chunks"

section \<open>Messages and the session store\<close>

text \<open>
  \<^verbatim>\<open>Message\<close> of \<^verbatim>\<open>src/types/chat.ts\<close> and \<^verbatim>\<open>Session\<close> of the session context
  (\<^verbatim>\<open>src/unnamed/part_002\<close>).  A \<^verbatim>\<open>Date\<close> is its time value in milliseconds, or
  invalid.  The content of a message is declared a string; the fallback path stores
  whatever value the server's JSON holds, so the field is a JavaScript value here and a
  string is \<open>JStr\<close>.
\<close>

datatype role = User | Assistant

datatype date = Date int | InvalidDate

record Message =
  msg_id :: string
  role :: role
  content :: json
  timestamp :: date
  toolCalls :: jsval

record Session =
  session_id :: string
  name :: string
  agentId :: string
  messages :: "Message list"
  createdAt :: date
  updatedAt :: date

text \<open>
  The state of \<^verbatim>\<open>SessionProvider\<close>: the \<^verbatim>\<open>sessions\<close> list, \<^verbatim>\<open>activeSessionId\<close>
  (\<open>None\<close> is \<^verbatim>\<open>null\<close>) and the value kept in local storage under
  \<^verbatim>\<open>nanobot-active-session-id\<close>.
\<close>

record store =
  sessions :: "Session list"
  activeSessionId :: "string option"
  stored_active :: "string option"

text \<open>
  \<^verbatim>\<open>createEmptySession\<close>.  The identifier that \<^verbatim>\<open>generateId\<close> builds from the clock
  and a random number, and the current time, are inputs.
\<close>

definition createEmptySession :: "string \<Rightarrow> string \<Rightarrow> int \<Rightarrow> Session" where
  "createEmptySession agent newId now =
     \<lparr> session_id = newId, name = ''New conversation'', agentId = agent,
       messages = [], createdAt = Date now, updatedAt = Date now \<rparr>"

text \<open>\<^verbatim>\<open>sessions.find(s => s.id === activeSessionId) || null\<close>.\<close>

definition activeSession :: "store \<Rightarrow> Session option" where
  "activeSession st =
     (case activeSessionId st of
        None \<Rightarrow> None
      | Some a \<Rightarrow> find (\<lambda>s. session_id s = a) (sessions st))"

definition createSession :: "store \<Rightarrow> string \<Rightarrow> string \<Rightarrow> int \<Rightarrow> store" where
  "createSession st agent newId now =
     st\<lparr>sessions := createEmptySession agent newId now # sessions st,
        activeSessionId := Some newId,
        stored_active := Some newId\<rparr>"

definition switchSession :: "store \<Rightarrow> string \<Rightarrow> store" where
  "switchSession st sessionId =
     st\<lparr>activeSessionId := Some sessionId, stored_active := Some sessionId\<rparr>"

definition deleteSession :: "store \<Rightarrow> string \<Rightarrow> string \<Rightarrow> int \<Rightarrow> store" where
  "deleteSession st sessionId newId now =
     (let filtered = filter (\<lambda>s. session_id s \<noteq> sessionId) (sessions st)
      in if length filtered = 0 then
           st\<lparr>sessions := [createEmptySession ''default'' newId now],
              activeSessionId := Some newId,
              stored_active := Some newId\<rparr>
         else if activeSessionId st = Some sessionId then
           st\<lparr>sessions := filtered,
              activeSessionId := Some (session_id (hd filtered)),
              stored_active := Some (session_id (hd filtered))\<rparr>
         else st\<lparr>sessions := filtered\<rparr>)"

definition updateSessionName :: "store \<Rightarrow> string \<Rightarrow> string \<Rightarrow> int \<Rightarrow> store" where
  "updateSessionName st sessionId newName now =
     st\<lparr>sessions := map (\<lambda>s. if session_id s = sessionId
                                then s\<lparr>name := newName, updatedAt := Date now\<rparr> else s)
                          (sessions st)\<rparr>"

definition updateSessionAgent :: "store \<Rightarrow> string \<Rightarrow> string \<Rightarrow> int \<Rightarrow> store" where
  "updateSessionAgent st sessionId agent now =
     st\<lparr>sessions := map (\<lambda>s. if session_id s = sessionId
                                then s\<lparr>agentId := agent, updatedAt := Date now\<rparr> else s)
                          (sessions st)\<rparr>"

text \<open>
  \<^verbatim>\<open>content.slice(0, 30) + (content.length > 30 ? '...' : '')\<close>, the name a session
  takes from its first user message.
\<close>

definition short_name :: "string \<Rightarrow> string" where
  "short_name c = take 30 c @ (if length c > 30 then ''...'' else [])"

text \<open>
  The same expression on the content of a message as the code evaluates it, whatever
  value the content is: a string is cut as above; an array is sliced, joined to a text
  and followed by the dots when it has more than 30 elements; any other value has no
  \<^verbatim>\<open>slice\<close> method and the call throws a TypeError (\<open>None\<close>), as does the joining of
  an array with an element that cannot be converted.
\<close>

fun derived_name :: "json \<Rightarrow> string option" where
  "derived_name (JStr c) = Some (short_name c)"
| "derived_name (JArr xs) =
     (case to_string (JArr (take 30 xs)) of
        None \<Rightarrow> None
      | Some t \<Rightarrow> Some (t @ (if length xs > 30 then ''...'' else [])))"
| "derived_name _ = None"

text \<open>
  \<^verbatim>\<open>addMessageToSession\<close>: the updater passed to \<^verbatim>\<open>setSessions\<close>.  It derives the
  name of a session without messages from a user message, and throws when that
  expression throws for a session it reaches.
\<close>

definition addMessageToSession :: "store \<Rightarrow> string \<Rightarrow> Message \<Rightarrow> int \<Rightarrow> exn + store" where
  "addMessageToSession st sessionId m now =
     (if role m = User \<and> derived_name (content m) = None
         \<and> list_ex (\<lambda>s. session_id s = sessionId \<and> length (messages s) = 0) (sessions st)
      then Inl TypeError
      else Inr (st\<lparr>sessions :=
             map (\<lambda>s. if session_id s = sessionId then
                         s\<lparr>name := (if length (messages s) = 0 \<and> role m = User
                                     then the (derived_name (content m)) else name s),
                           messages := messages s @ [m],
                           updatedAt := Date now\<rparr>
                       else s)
                 (sessions st)\<rparr>))"

text \<open>The store after a state update: an updater that throws changes nothing.\<close>

definition store_after :: "store \<Rightarrow> exn + store \<Rightarrow> store" where
  "store_after st res = (case res of Inl e \<Rightarrow> st | Inr st' \<Rightarrow> st')"

definition setSessionMessages :: "store \<Rightarrow> string \<Rightarrow> Message list \<Rightarrow> int \<Rightarrow> store" where
  "setSessionMessages st sessionId ms now =
     st\<lparr>sessions := map (\<lambda>s. if session_id s = sessionId
                                then s\<lparr>messages := ms, updatedAt := Date now\<rparr> else s)
                          (sessions st)\<rparr>"

definition clearSessionMessages :: "store \<Rightarrow> string \<Rightarrow> int \<Rightarrow> store" where
  "clearSessionMessages st sessionId now =
     st\<lparr>sessions := map (\<lambda>s. if session_id s = sessionId
                                then s\<lparr>messages := [], updatedAt := Date now\<rparr> else s)
                          (sessions st)\<rparr>"

text \<open>
  The effect that runs when the provider mounts: \<open>loaded\<close> is the result of
  \<^verbatim>\<open>loadSessions()\<close> and \<open>storedActiveId\<close> the stored pointer.
\<close>

definition mount :: "Session list \<Rightarrow> string option \<Rightarrow> string \<Rightarrow> int \<Rightarrow> store" where
  "mount loaded storedActiveId newId now =
     (if length loaded > 0 then
        \<lparr> sessions = loaded,
          activeSessionId =
            (case find (\<lambda>s. Some (session_id s) = storedActiveId) loaded of
               Some a \<Rightarrow> storedActiveId
             | None \<Rightarrow> Some (session_id (hd loaded))),
          stored_active = storedActiveId \<rparr>
      else
        \<lparr> sessions = [createEmptySession ''default'' newId now],
          activeSessionId = Some newId,
          stored_active = Some newId \<rparr>)"

text \<open>
  The operations of the store, for statements about every one of them; the result is
  the store after the state updates of the operation.
\<close>

datatype store_op =
    CreateSession string string int
  | SwitchSession string
  | DeleteSession string string int
  | UpdateSessionName string string int
  | UpdateSessionAgent string string int
  | AddMessageToSession string Message int
  | SetSessionMessages string "Message list" int
  | ClearSessionMessages string int

fun apply_op :: "store \<Rightarrow> store_op \<Rightarrow> store" where
  "apply_op st (CreateSession agent newId now) = createSession st agent newId now"
| "apply_op st (SwitchSession sessionId) = switchSession st sessionId"
| "apply_op st (DeleteSession sessionId newId now) = deleteSession st sessionId newId now"
| "apply_op st (UpdateSessionName sessionId n now) = updateSessionName st sessionId n now"
| "apply_op st (UpdateSessionAgent sessionId a now) = updateSessionAgent st sessionId a now"
| "apply_op st (AddMessageToSession sessionId m now) =
     store_after st (addMessageToSession st sessionId m now)"
| "apply_op st (SetSessionMessages sessionId ms now) = setSessionMessages st sessionId ms now"
| "apply_op st (ClearSessionMessages sessionId now) = clearSessionMessages st sessionId now"

text \<open>The active-session pointer names a session of the collection.\<close>

definition active_present :: "store \<Rightarrow> bool" where
  "active_present st \<longleftrightarrow>
     (case activeSessionId st of
        None \<Rightarrow> False
      | Some a \<Rightarrow> a \<in> set (map session_id (sessions st)))"

section \<open>Sending a message\<close>

text \<open>
  The body of a request, \<^verbatim>\<open>{ message, sessionId, agentId }\<close> (the hook sends no
  \<^verbatim>\<open>agentId\<close>), and a request: the URL with the body.
\<close>

record payload =
  p_message :: string
  p_sessionId :: string
  p_agentId :: "string option"

type_synonym request = "string \<times> payload"

text \<open>
  What the code reads of a \<^verbatim>\<open>Response\<close>.  The body stream delivers the decoded text
  of finitely many reads; after them \<^verbatim>\<open>reader.read()\<close> either reports completion or
  rejects.  \<open>json_body\<close> is the result of \<^verbatim>\<open>res.json()\<close>, \<open>None\<close> when it rejects.
\<close>

datatype body_stream = BodyStream (chunks: "string list") (read_fails: bool)

record response =
  ok :: bool
  http_status :: nat
  body :: "body_stream option"
  json_body :: "json option"

text \<open>
  The host: \<^verbatim>\<open>JSON.parse\<close>, \<^verbatim>\<open>fetch\<close> (\<open>Inl\<close> when the promise rejects) and the
  clock, read when the user message is built and when the reply is built.
\<close>

record env =
  parse :: "string \<Rightarrow> json option"
  fetch :: "request \<Rightarrow> exn + response"
  now_sent :: int
  now_reply :: int

fun digits :: "nat \<Rightarrow> string" where
  "digits n =
     (if n < 10 then [char_of (48 + n)]
      else digits (n div 10) @ [char_of (48 + n mod 10)])"

declare digits.simps [simp del]

definition show_int :: "int \<Rightarrow> string" where
  "show_int i = (if i < 0 then ''-'' @ digits (nat (- i)) else digits (nat i))"

definition userMessage :: "env \<Rightarrow> string \<Rightarrow> Message" where
  "userMessage e input =
     \<lparr> msg_id = ''msg-'' @ show_int (now_sent e), role = User,
       content = JStr (trim input), timestamp = Date (now_sent e), toolCalls = None \<rparr>"

definition assistantMessage :: "env \<Rightarrow> json \<Rightarrow> jsval \<Rightarrow> Message" where
  "assistantMessage e c tc =
     \<lparr> msg_id = ''msg-'' @ show_int (now_reply e + 1), role = Assistant,
       content = c, timestamp = Date (now_reply e), toolCalls = tc \<rparr>"

definition apology :: string where
  "apology = ''Sorry, I encountered an error processing your request.''"

definition errorMessage :: "env \<Rightarrow> Message" where
  "errorMessage e = assistantMessage e (JStr apology) None"

text \<open>\<^verbatim>\<open>streamingContentRef.current || 'No response'\<close>.\<close>

definition or_no_response :: "string \<Rightarrow> string" where
  "or_no_response s = (if s = [] then ''No response'' else s)"

text \<open>\<^verbatim>\<open>data.response || data.message || 'No response'\<close>, for \<open>data\<close> other than \<^verbatim>\<open>null\<close>.\<close>

definition fallback_content :: "json \<Rightarrow> json" where
  "fallback_content data =
     (if truthy (field data ''response'') then the (field data ''response'')
      else if truthy (field data ''message'') then the (field data ''message'')
      else JStr ''No response'')"

text \<open>
  The state of the chat view: \<^verbatim>\<open>messages\<close>, \<^verbatim>\<open>isLoading\<close>, \<^verbatim>\<open>isStreaming\<close>,
  \<^verbatim>\<open>showSummary\<close>, and in \<open>stream\<close> the streaming content (state and ref), the
  thinking flag and the progress list, together with the two variables of the read
  loop, which every loop initialises.  The page of \<^verbatim>\<open>Chat.tsx\<close> works on the session
  store as well; the hook of \<^verbatim>\<open>useChat.ts\<close> has a fixed session identifier (its mirror
  of the messages in local storage is left out).
\<close>

record chat_state =
  chat_messages :: "Message list"
  isLoading :: bool
  isStreaming :: bool
  showSummary :: bool
  stream :: stream_state

record page_state = chat_state +
  session_store :: store

record hook_state = chat_state +
  hook_sessionId :: string

text \<open>The variables at the start of the read loop.\<close>

definition loop_start :: "stream_state \<Rightarrow> stream_state" where
  "loop_start ss = ss\<lparr>buffer := [], currentEventType := ''message''\<rparr>"

text \<open>
  The \<^verbatim>\<open>while (true)\<close> loop over the reads of the body: the state after the last
  delivered chunk, and the exception of a rejected read.
\<close>

definition read_all ::
  "(string \<Rightarrow> json option) \<Rightarrow> stream_state \<Rightarrow> body_stream \<Rightarrow> exn option \<times> stream_state" where
  "read_all p ss b =
     (if read_fails b then Some ReadError else None, foldl (feed p) ss (chunks b))"

text \<open>The resets at the start of \<^verbatim>\<open>sendMessage\<close> and in its \<^verbatim>\<open>finally\<close>.\<close>

definition reset_streaming :: "'a chat_state_scheme \<Rightarrow> 'a chat_state_scheme" where
  "reset_streaming st =
     st\<lparr>stream := (stream st)\<lparr>streamingContent := [], isThinking := False,
                               streamingContentRef := []\<rparr>,
        isStreaming := False, isLoading := True\<rparr>"

definition finally_block :: "'a chat_state_scheme \<Rightarrow> 'a chat_state_scheme" where
  "finally_block st =
     st\<lparr>isLoading := False, isStreaming := False,
        stream := (stream st)\<lparr>isThinking := False, progressSteps := [],
                               streamingContent := []\<rparr>\<rparr>"

text \<open>The settings after a stream that ended normally, before the reply is appended.\<close>

definition stream_done :: "'a chat_state_scheme \<Rightarrow> stream_state \<Rightarrow> 'a chat_state_scheme" where
  "stream_done st ss = st\<lparr>isStreaming := False, stream := ss\<lparr>isThinking := False\<rparr>\<rparr>"

subsection \<open>The page: \<^verbatim>\<open>sendMessage\<close> of \<^verbatim>\<open>src/pages/Chat.tsx\<close>\<close>

definition page_payload :: "Session \<Rightarrow> string \<Rightarrow> payload" where
  "page_payload a input =
     \<lparr> p_message = trim input, p_sessionId = session_id a, p_agentId = Some (agentId a) \<rparr>"

text \<open>\<^verbatim>\<open>setMessages(prev => [...prev, m]); addMessageToSession(activeSession.id, m)\<close>.\<close>

definition page_append :: "page_state \<Rightarrow> Session \<Rightarrow> Message \<Rightarrow> int \<Rightarrow> page_state" where
  "page_append st a m now =
     st\<lparr>chat_messages := chat_messages st @ [m],
        session_store :=
          store_after (session_store st)
            (addMessageToSession (session_store st) (session_id a) m now)\<rparr>"

text \<open>
  The reply of a successful request: append it, and name the session after the user
  message when the session held no message as the call began.
\<close>

definition page_reply :: "env \<Rightarrow> page_state \<Rightarrow> Session \<Rightarrow> string \<Rightarrow> Message \<Rightarrow> page_state" where
  "page_reply e st a input m =
     (let st1 = page_append st a m (now_reply e);
          st2 = (if length (messages a) = 0
                 then st1\<lparr>session_store :=
                        updateSessionName (session_store st1) (session_id a)
                          (short_name (trim input)) (now_reply e)\<rparr>
                 else st1)
      in st2)"

text \<open>
  The \<^verbatim>\<open>try\<close> block.  The result is the exception that leaves it, if any, the state
  reached and the requests issued.  A response without a body is passed over.
\<close>

definition page_try_stream ::
  "env \<Rightarrow> page_state \<Rightarrow> Session \<Rightarrow> string \<Rightarrow> exn option \<times> page_state \<times> request list" where
  "page_try_stream e st a input =
     (let req = (''/api/chat/stream'', page_payload a input)
      in case fetch e req of
           Inl x \<Rightarrow> (Some x, st, [req])
         | Inr res \<Rightarrow>
             if \<not> ok res then (Some (ApiError (http_status res)), st, [req])
             else (case body res of
                     None \<Rightarrow> (None, st, [req])
                   | Some b \<Rightarrow>
                       (let st1 = st\<lparr>isStreaming := True\<rparr>
                        in case read_all (parse e) (loop_start (stream st1)) b of
                             (Some x, ss) \<Rightarrow> (Some x, st1\<lparr>stream := ss\<rparr>, [req])
                           | (None, ss) \<Rightarrow>
                               (let st2 = stream_done st1 ss;
                                    m = assistantMessage e
                                          (JStr (or_no_response (streamingContentRef ss))) None;
                                    st3 = page_reply e st2 a input m
                                in (None,
                                    st3\<lparr>stream := (stream st3)\<lparr>streamingContent := []\<rparr>,
                                        showSummary := True\<rparr>,
                                    [req])))))"

text \<open>The \<^verbatim>\<open>try\<close> block of the fallback, inside the \<^verbatim>\<open>catch\<close>.\<close>

definition page_try_fallback ::
  "env \<Rightarrow> page_state \<Rightarrow> Session \<Rightarrow> string \<Rightarrow> exn option \<times> page_state \<times> request list" where
  "page_try_fallback e st a input =
     (let req = (''/api/chat'', page_payload a input)
      in case fetch e req of
           Inl x \<Rightarrow> (Some x, st, [req])
         | Inr res \<Rightarrow>
             if \<not> ok res then (Some (ApiError (http_status res)), st, [req])
             else (case json_body res of
                     None \<Rightarrow> (Some SyntaxError, st, [req])
                   | Some data \<Rightarrow>
                       if data = JNull then (Some TypeError, st, [req])
                       else
                         (let m = assistantMessage e (fallback_content data)
                                    (field data ''toolCalls'');
                              st1 = page_reply e st a input m
                          in (None, st1\<lparr>showSummary := True\<rparr>, [req]))))"

definition sendMessage_page ::
  "env \<Rightarrow> page_state \<Rightarrow> string \<Rightarrow> page_state \<times> request list" where
  "sendMessage_page e st input =
     (case activeSession (session_store st) of
        None \<Rightarrow> (st, [])
      | Some a \<Rightarrow>
          if trim input = [] \<or> isLoading st then (st, [])
          else
            (let st1 = reset_streaming (page_append st a (userMessage e input) (now_sent e))
             in case page_try_stream e st1 a input of
                  (None, st2, reqs) \<Rightarrow> (finally_block st2, reqs)
                | (Some x, st2, reqs) \<Rightarrow>
                    (case page_try_fallback e st2 a input of
                       (None, st3, reqs') \<Rightarrow> (finally_block st3, reqs @ reqs')
                     | (Some y, st3, reqs') \<Rightarrow>
                         (finally_block (page_append st3 a (errorMessage e) (now_reply e)),
                          reqs @ reqs'))))"

subsection \<open>The hook: \<^verbatim>\<open>sendMessage\<close> of \<^verbatim>\<open>src/hooks/useChat.ts\<close>\<close>

definition hook_payload :: "hook_state \<Rightarrow> string \<Rightarrow> payload" where
  "hook_payload st input =
     \<lparr> p_message = trim input, p_sessionId = hook_sessionId st, p_agentId = None \<rparr>"

definition hook_append :: "hook_state \<Rightarrow> Message \<Rightarrow> hook_state" where
  "hook_append st m = st\<lparr>chat_messages := chat_messages st @ [m]\<rparr>"

text \<open>The \<^verbatim>\<open>try\<close> block; here a response without a body throws.\<close>

definition hook_try_stream ::
  "env \<Rightarrow> hook_state \<Rightarrow> string \<Rightarrow> exn option \<times> hook_state \<times> request list" where
  "hook_try_stream e st input =
     (let req = (''/api/chat/stream'', hook_payload st input)
      in case fetch e req of
           Inl x \<Rightarrow> (Some x, st, [req])
         | Inr res \<Rightarrow>
             if \<not> ok res then (Some (ApiError (http_status res)), st, [req])
             else (case body res of
                     None \<Rightarrow> (Some NoResponseBody, st, [req])
                   | Some b \<Rightarrow>
                       (let st1 = st\<lparr>isStreaming := True\<rparr>
                        in case read_all (parse e) (loop_start (stream st1)) b of
                             (Some x, ss) \<Rightarrow> (Some x, st1\<lparr>stream := ss\<rparr>, [req])
                           | (None, ss) \<Rightarrow>
                               (let st2 = stream_done st1 ss;
                                    m = assistantMessage e
                                          (JStr (or_no_response (streamingContentRef ss))) None;
                                    st3 = hook_append st2 m
                                in (None,
                                    st3\<lparr>stream := (stream st3)\<lparr>streamingContent := []\<rparr>,
                                        showSummary := True\<rparr>,
                                    [req])))))"

definition hook_try_fallback ::
  "env \<Rightarrow> hook_state \<Rightarrow> string \<Rightarrow> exn option \<times> hook_state \<times> request list" where
  "hook_try_fallback e st input =
     (let req = (''/api/chat'', hook_payload st input)
      in case fetch e req of
           Inl x \<Rightarrow> (Some x, st, [req])
         | Inr res \<Rightarrow>
             if \<not> ok res then (Some (ApiError (http_status res)), st, [req])
             else (case json_body res of
                     None \<Rightarrow> (Some SyntaxError, st, [req])
                   | Some data \<Rightarrow>
                       if data = JNull then (Some TypeError, st, [req])
                       else
                         (let m = assistantMessage e (fallback_content data)
                                    (field data ''toolCalls'');
                              st1 = hook_append st m
                          in (None, st1\<lparr>showSummary := True\<rparr>, [req]))))"

definition sendMessage_hook ::
  "env \<Rightarrow> hook_state \<Rightarrow> string \<Rightarrow> hook_state \<times> request list" where
  "sendMessage_hook e st input =
     (if trim input = [] \<or> isLoading st then (st, [])
      else
        (let st1 = reset_streaming (hook_append st (userMessage e input))
         in case hook_try_stream e st1 input of
              (None, st2, reqs) \<Rightarrow> (finally_block st2, reqs)
            | (Some x, st2, reqs) \<Rightarrow>
                (case hook_try_fallback e st2 input of
                   (None, st3, reqs') \<Rightarrow> (finally_block st3, reqs @ reqs')
                 | (Some y, st3, reqs') \<Rightarrow>
                     (finally_block (hook_append st3 (errorMessage e)), reqs @ reqs'))))"

section \<open>Persistence of the sessions\<close>

text \<open>
  \<^verbatim>\<open>loadSessions\<close> and \<^verbatim>\<open>saveSessions\<close> of the session context
  (\<^verbatim>\<open>src/unnamed/part_002\<close>).  The values in memory are those of \<^verbatim>\<open>JSON.parse\<close>
  (\<open>Plain\<close>), \<^verbatim>\<open>Date\<close> objects, and the arrays and objects that \<^verbatim>\<open>loadSessions\<close>
  builds around them; an object is the list of its properties in enumeration order.
\<close>

datatype obj =
    Plain json
  | DateObj date
  | Arr "obj list"
  | Obj "(string \<times> obj) list"

text \<open>
  The runtime: \<^verbatim>\<open>JSON.stringify\<close> on a value that holds no \<^verbatim>\<open>Date\<close>,
  \<^verbatim>\<open>JSON.parse\<close> (\<open>None\<close> when it throws), \<^verbatim>\<open>Date.prototype.toISOString\<close> on a valid
  time value, the \<^verbatim>\<open>Date\<close> constructor on a string and on a number (given by its
  text), and whether \<^verbatim>\<open>localStorage.setItem\<close> throws for a key and a value.
\<close>

record runtime =
  js_stringify :: "json \<Rightarrow> string"
  js_parse :: "string \<Rightarrow> json option"
  toISOString :: "int \<Rightarrow> string"
  date_of_string :: "string \<Rightarrow> date"
  date_of_number :: "string \<Rightarrow> date"
  setItem_throws :: "string \<Rightarrow> string \<Rightarrow> bool"

type_synonym storage = "string \<rightharpoonup> string"

definition STORAGE_KEY :: string where
  "STORAGE_KEY = ''nanobot-sessions''"

text \<open>
  \<^verbatim>\<open>new Date(v)\<close> for a parsed value or \<^verbatim>\<open>undefined\<close>: \<^verbatim>\<open>undefined\<close> gives an invalid
  date, \<^verbatim>\<open>null\<close> and the booleans convert to the numbers 0 and 1, an array or object
  is first converted to a string, which can throw.
\<close>

fun new_Date :: "runtime \<Rightarrow> jsval \<Rightarrow> exn + date" where
  "new_Date r None = Inr InvalidDate"
| "new_Date r (Some JNull) = Inr (Date 0)"
| "new_Date r (Some (JBool b)) = Inr (Date (if b then 1 else 0))"
| "new_Date r (Some (JNum n)) = Inr (date_of_number r n)"
| "new_Date r (Some (JStr s)) = Inr (date_of_string r s)"
| "new_Date r (Some v) =
     (case to_string v of None \<Rightarrow> Inl TypeError | Some s \<Rightarrow> Inr (date_of_string r s))"

text \<open>
  The properties that the spread \<^verbatim>\<open>{ ...v }\<close> copies from a parsed value: those of an
  object, the indexed elements of an array and the indexed characters of a string.
\<close>

fun own_props :: "json \<Rightarrow> (string \<times> json) list" where
  "own_props (JObj kvs) = kvs"
| "own_props (JArr xs) = zip (map digits [0..<length xs]) xs"
| "own_props (JStr s) = zip (map digits [0..<length s]) (map (\<lambda>c. JStr [c]) s)"
| "own_props _ = []"

text \<open>A property written in an object literal after a spread: replaced in place, or added.\<close>

definition set_prop :: "(string \<times> obj) list \<Rightarrow> string \<Rightarrow> obj \<Rightarrow> (string \<times> obj) list" where
  "set_prop kvs k v =
     (if k \<in> fst ` set kvs then map (\<lambda>kv. if fst kv = k then (k, v) else kv) kvs
      else kvs @ [(k, v)])"

definition spread :: "json \<Rightarrow> (string \<times> obj) list" where
  "spread v = map (\<lambda>kv. (fst kv, Plain (snd kv))) (own_props v)"

text \<open>\<^verbatim>\<open>xs.map(f)\<close> for an \<open>f\<close> that can throw.\<close>

fun map_all :: "('a \<Rightarrow> exn + 'b) \<Rightarrow> 'a list \<Rightarrow> exn + 'b list" where
  "map_all f [] = Inr []"
| "map_all f (x # xs) =
     (case f x of
        Inl e \<Rightarrow> Inl e
      | Inr y \<Rightarrow> (case map_all f xs of Inl e \<Rightarrow> Inl e | Inr ys \<Rightarrow> Inr (y # ys)))"

text \<open>\<^verbatim>\<open>(msg) => ({ ...msg, timestamp: new Date(msg.timestamp) })\<close>.\<close>

definition load_message :: "runtime \<Rightarrow> json \<Rightarrow> exn + obj" where
  "load_message r msg =
     (if msg = JNull then Inl TypeError
      else (case new_Date r (field msg ''timestamp'') of
              Inl e \<Rightarrow> Inl e
            | Inr d \<Rightarrow> Inr (Obj (set_prop (spread msg) ''timestamp'' (DateObj d)))))"

text \<open>
  \<^verbatim>\<open>session.messages?.map(...) || []\<close>: the empty array for \<^verbatim>\<open>undefined\<close> and
  \<^verbatim>\<open>null\<close>, the mapped array for an array, and a TypeError for any other value, which
  has no \<^verbatim>\<open>map\<close> method.
\<close>

definition load_messages :: "runtime \<Rightarrow> jsval \<Rightarrow> exn + obj" where
  "load_messages r v =
     (case v of
        None \<Rightarrow> Inr (Arr [])
      | Some JNull \<Rightarrow> Inr (Arr [])
      | Some (JArr ms) \<Rightarrow>
          (case map_all (load_message r) ms of Inl e \<Rightarrow> Inl e | Inr xs \<Rightarrow> Inr (Arr xs))
      | Some _ \<Rightarrow> Inl TypeError)"

text \<open>The function mapped over the parsed array by \<^verbatim>\<open>loadSessions\<close>.\<close>

definition load_session :: "runtime \<Rightarrow> json \<Rightarrow> exn + obj" where
  "load_session r session =
     (if session = JNull then Inl TypeError
      else (case new_Date r (field session ''createdAt'') of
              Inl e \<Rightarrow> Inl e
            | Inr c \<Rightarrow>
                (case new_Date r (field session ''updatedAt'') of
                   Inl e \<Rightarrow> Inl e
                 | Inr u \<Rightarrow>
                     (case load_messages r (field session ''messages'') of
                        Inl e \<Rightarrow> Inl e
                      | Inr ms \<Rightarrow>
                          Inr (Obj (set_prop
                                     (set_prop
                                        (set_prop (spread session) ''createdAt'' (DateObj c))
                                        ''updatedAt'' (DateObj u))
                                     ''messages'' ms))))))"

text \<open>
  \<^verbatim>\<open>loadSessions\<close>: the empty array when nothing (or the empty string) is stored and
  when anything in the \<^verbatim>\<open>try\<close> block throws, which includes a parsed value that is no
  array.
\<close>

definition loadSessions :: "runtime \<Rightarrow> storage \<Rightarrow> obj list" where
  "loadSessions r ls =
     (case ls STORAGE_KEY of
        None \<Rightarrow> []
      | Some stored \<Rightarrow>
          if stored = [] then []
          else (case js_parse r stored of
                  None \<Rightarrow> []
                | Some (JArr items) \<Rightarrow>
                    (case map_all (load_session r) items of Inl e \<Rightarrow> [] | Inr xs \<Rightarrow> xs)
                | Some _ \<Rightarrow> []))"

text \<open>
  What \<^verbatim>\<open>JSON.stringify\<close> serialises for a value in memory: a \<^verbatim>\<open>Date\<close> is replaced by
  the result of its \<^verbatim>\<open>toJSON\<close>, the ISO text, or \<^verbatim>\<open>null\<close> for an invalid date.
\<close>

fun wire :: "runtime \<Rightarrow> obj \<Rightarrow> json" where
  "wire r (Plain j) = j"
| "wire r (DateObj (Date t)) = JStr (toISOString r t)"
| "wire r (DateObj InvalidDate) = JNull"
| "wire r (Arr xs) = JArr (map (wire r) xs)"
| "wire r (Obj kvs) = JObj (map (map_prod id (wire r)) kvs)"

text \<open>\<^verbatim>\<open>saveSessions\<close>: an exception of \<^verbatim>\<open>setItem\<close> is caught, and nothing is stored.\<close>

definition saveSessions :: "runtime \<Rightarrow> storage \<Rightarrow> obj list \<Rightarrow> storage" where
  "saveSessions r ls sessions_array =
     (let text = js_stringify r (JArr (map (wire r) sessions_array))
      in if setItem_throws r STORAGE_KEY text then ls else ls(STORAGE_KEY \<mapsto> text))"

text \<open>
  The objects that the typed records stand for.  The property order is that of the
  object literals of \<^verbatim>\<open>createEmptySession\<close> and \<^verbatim>\<open>sendMessage\<close>, which the spreads of
  the store operations keep; a \<^verbatim>\<open>toolCalls\<close> that is \<^verbatim>\<open>undefined\<close> is no property.
\<close>

definition role_text :: "role \<Rightarrow> string" where
  "role_text ro = (case ro of User \<Rightarrow> ''user'' | Assistant \<Rightarrow> ''assistant'')"

definition message_obj :: "Message \<Rightarrow> obj" where
  "message_obj m =
     Obj ([(''id'', Plain (JStr (msg_id m))),
           (''role'', Plain (JStr (role_text (role m)))),
           (''content'', Plain (content m)),
           (''timestamp'', DateObj (timestamp m))]
          @ (case toolCalls m of None \<Rightarrow> [] | Some v \<Rightarrow> [(''toolCalls'', Plain v)]))"

definition session_obj :: "Session \<Rightarrow> obj" where
  "session_obj s =
     Obj [(''id'', Plain (JStr (session_id s))),
          (''name'', Plain (JStr (name s))),
          (''agentId'', Plain (JStr (agentId s))),
          (''messages'', Arr (map message_obj (messages s))),
          (''createdAt'', DateObj (createdAt s)),
          (''updatedAt'', DateObj (updatedAt s))]"

text \<open>The dates of a session, and a date that its ISO text gives back.\<close>

definition session_dates :: "Session \<Rightarrow> date list" where
  "session_dates s = createdAt s # updatedAt s # map timestamp (messages s)"

definition date_round_trips :: "runtime \<Rightarrow> date \<Rightarrow> bool" where
  "date_round_trips r d =
     (case d of
        Date t \<Rightarrow> date_of_string r (toISOString r t) = Date t
      | InvalidDate \<Rightarrow> False)"

section \<open>Notions used in the statements\<close>

text \<open>
  No two entries of a progress list have the same key, in the sense of the comparison
  that \<^verbatim>\<open>findIndex\<close> makes.
\<close>

fun distinct_keys :: "ProgressStep list \<Rightarrow> bool" where
  "distinct_keys [] = True"
| "distinct_keys (s # ss) = (list_all (\<lambda>t. \<not> same_key s t) ss \<and> distinct_keys ss)"

text \<open>A value that \<^verbatim>\<open>===\<close> compares by value: anything but an array or an object.\<close>

fun is_primitive :: "jsval \<Rightarrow> bool" where
  "is_primitive (Some (JArr xs)) = False"
| "is_primitive (Some (JObj kvs)) = False"
| "is_primitive _ = True"

text \<open>
  A frame on the wire: the text after \<^verbatim>\<open>event:\<close> and the text after \<^verbatim>\<open>data:\<close>, sent
  as two lines and a blank line.
\<close>

type_synonym frame = "string \<times> string"

definition frame_text :: "frame \<Rightarrow> string" where
  "frame_text f =
     ''event:'' @ fst f @ [CHR 0x0A] @ ''data:'' @ snd f @ [CHR 0x0A, CHR 0x0A]"





text \<open>
  How a request can fail: the promise of \<^verbatim>\<open>fetch\<close> rejects or the status is not a
  success; the response is good but a read of its body rejects; the response of the
  fallback is good but \<^verbatim>\<open>res.json()\<close> rejects or gives \<^verbatim>\<open>null\<close>.
\<close>

definition request_fails :: "env \<Rightarrow> request \<Rightarrow> bool" where
  "request_fails e req \<longleftrightarrow> (case fetch e req of Inl x \<Rightarrow> True | Inr res \<Rightarrow> \<not> ok res)"

definition read_error :: "env \<Rightarrow> request \<Rightarrow> bool" where
  "read_error e req \<longleftrightarrow>
     (case fetch e req of
        Inl x \<Rightarrow> False
      | Inr res \<Rightarrow> ok res \<and> (case body res of None \<Rightarrow> False | Some b \<Rightarrow> read_fails b))"

definition no_body :: "env \<Rightarrow> request \<Rightarrow> bool" where
  "no_body e req \<longleftrightarrow>
     (case fetch e req of Inl x \<Rightarrow> False | Inr res \<Rightarrow> ok res \<and> body res = None)"

definition unreadable_reply :: "env \<Rightarrow> request \<Rightarrow> bool" where
  "unreadable_reply e req \<longleftrightarrow>
     (case fetch e req of
        Inl x \<Rightarrow> False
      | Inr res \<Rightarrow> ok res \<and> (json_body res = None \<or> json_body res = Some JNull))"

text \<open>The message that the fallback request leads to.\<close>

definition fallback_reply :: "env \<Rightarrow> request \<Rightarrow> Message" where
  "fallback_reply e req =
     (if request_fails e req \<or> unreadable_reply e req then errorMessage e
      else (case fetch e req of
              Inl x \<Rightarrow> errorMessage e
            | Inr res \<Rightarrow>
                assistantMessage e (fallback_content (the (json_body res)))
                  (field (the (json_body res)) ''toolCalls'')))"

section \<open>Sample data\<close>

text \<open>
  The values of \<^verbatim>\<open>JSON.parse\<close> on the payloads of the examples; every other text
  of the examples is not JSON.
\<close>

definition sample_parse :: "string \<Rightarrow> json option" where
  \<open>sample_parse s =
     (if s = ''{"tool":"grep","file":"a.py","status":"running","content":"x"}'' then
        Some (JObj [(''tool'', JStr ''grep''), (''file'', JStr ''a.py''),
                    (''status'', JStr ''running''), (''content'', JStr ''x'')])
      else if s = ''{"tool":"grep","file":"a.py","status":"completed","content":"y"}'' then
        Some (JObj [(''tool'', JStr ''grep''), (''file'', JStr ''a.py''),
                    (''status'', JStr ''completed''), (''content'', JStr ''y'')])
      else if s = ''{"tool":"grep"}'' then Some (JObj [(''tool'', JStr ''grep'')])
      else if s = ''{"tool":""}'' then Some (JObj [(''tool'', JStr [])])
      else if s = ''{"action":"read"}'' then Some (JObj [(''action'', JStr ''read'')])
      else if s = ''{"status":"completed"}'' then Some (JObj [(''status'', JStr ''completed'')])
      else if s = ''{"content":"abc"}'' then Some (JObj [(''content'', JStr ''abc'')])
      else if s = ''null'' then Some JNull
      else None)\<close>

definition running_payload :: string where
  \<open>running_payload = ''{"tool":"grep","file":"a.py","status":"running","content":"x"}''\<close>

definition completed_payload :: string where
  \<open>completed_payload = ''{"tool":"grep","file":"a.py","status":"completed","content":"y"}''\<close>

definition sample_session :: Session where
  "sample_session =
     \<lparr> session_id = ''s1'', name = ''New conversation'', agentId = ''default'',
       messages = [], createdAt = Date 0, updatedAt = Date 0 \<rparr>"

definition sample_store :: store where
  "sample_store =
     \<lparr> sessions = [sample_session], activeSessionId = Some ''s1'',
       stored_active = Some ''s1'' \<rparr>"

definition sample_page :: page_state where
  "sample_page =
     \<lparr> chat_messages = [], isLoading = False, isStreaming = False, showSummary = False,
       stream = init_stream, session_store = sample_store \<rparr>"

definition sample_hook :: hook_state where
  "sample_hook =
     \<lparr> chat_messages = [], isLoading = False, isStreaming = False, showSummary = False,
       stream = init_stream, hook_sessionId = ''web:session_1_abc'' \<rparr>"

text \<open>A server that answers the streaming request with status 500 and is unreachable after.\<close>

definition env_500 :: env where
  "env_500 =
     \<lparr> parse = sample_parse,
       fetch = (\<lambda>req. if fst req = ''/api/chat/stream''
                       then Inr \<lparr> ok = False, http_status = 500, body = None, json_body = None \<rparr>
                       else Inl NetworkError),
       now_sent = 1000, now_reply = 2000 \<rparr>"

text \<open>
  A server whose stream delivers the line \<^verbatim>\<open>data: hello\<close> and then breaks, and whose
  fallback endpoint answers \<^verbatim>\<open>{"response":"R"}\<close>.
\<close>

definition env_broken_stream :: env where
  "env_broken_stream =
     \<lparr> parse = sample_parse,
       fetch = (\<lambda>req. if fst req = ''/api/chat/stream''
                       then Inr \<lparr> ok = True, http_status = 200,
                                  body = Some (BodyStream [''data: hello'' @ [CHR 0x0A]] True),
                                  json_body = None \<rparr>
                       else Inr \<lparr> ok = True, http_status = 200, body = None,
                                  json_body = Some (JObj [(''response'', JStr ''R'')]) \<rparr>),
       now_sent = 1000, now_reply = 2000 \<rparr>"

text \<open>A server whose stream delivers the two progress frames of the example and ends.\<close>

definition env_stream_ok :: env where
  "env_stream_ok =
     \<lparr> parse = sample_parse,
       fetch = (\<lambda>req. if fst req = ''/api/chat/stream''
                       then Inr \<lparr> ok = True, http_status = 200,
                                  body = Some (BodyStream
                                           [frame_text (''progress'', running_payload),
                                            frame_text (''progress'', completed_payload)]
                                           False),
                                  json_body = None \<rparr>
                       else Inl NetworkError),
       now_sent = 1000, now_reply = 2000 \<rparr>"

text \<open>
  A session with one message, the session of the sample store with an invalid creation
  date, and the JSON values and texts that \<^verbatim>\<open>JSON.stringify\<close> produces for the two.
\<close>

definition stored_session :: Session where
  "stored_session =
     \<lparr> session_id = ''s1'', name = ''hi'', agentId = ''default'',
       messages = [\<lparr> msg_id = ''msg-1000'', role = User, content = JStr ''hi'',
                     timestamp = Date 1000, toolCalls = None \<rparr>],
       createdAt = Date 0, updatedAt = Date 1000 \<rparr>"

definition stored_json :: json where
  "stored_json =
     JArr [JObj [(''id'', JStr ''s1''), (''name'', JStr ''hi''), (''agentId'', JStr ''default''),
                 (''messages'',
                    JArr [JObj [(''id'', JStr ''msg-1000''), (''role'', JStr ''user''),
                                (''content'', JStr ''hi''),
                                (''timestamp'', JStr ''1970-01-01T00:00:01.000Z'')]]),
                 (''createdAt'', JStr ''1970-01-01T00:00:00.000Z''),
                 (''updatedAt'', JStr ''1970-01-01T00:00:01.000Z'')]]"

definition stored_text :: string where
  \<open>stored_text =
     ''[{"id":"s1","name":"hi","agentId":"default","messages":[{"id":"msg-1000","role":"user","content":"hi","timestamp":"1970-01-01T00:00:01.000Z"}],"createdAt":"1970-01-01T00:00:00.000Z","updatedAt":"1970-01-01T00:00:01.000Z"}]''\<close>

definition undated_session :: Session where
  "undated_session = sample_session\<lparr>createdAt := InvalidDate\<rparr>"

definition undated_json :: json where
  "undated_json =
     JArr [JObj [(''id'', JStr ''s1''), (''name'', JStr ''New conversation''),
                 (''agentId'', JStr ''default''), (''messages'', JArr []),
                 (''createdAt'', JNull),
                 (''updatedAt'', JStr ''1970-01-01T00:00:00.000Z'')]]"

definition undated_text :: string where
  \<open>undated_text =
     ''[{"id":"s1","name":"New conversation","agentId":"default","messages":[],"createdAt":null,"updatedAt":"1970-01-01T00:00:00.000Z"}]''\<close>

text \<open>The runtime on the values of the examples, with a store that accepts every write.\<close>

definition sample_runtime :: runtime where
  "sample_runtime =
     \<lparr> js_stringify = (\<lambda>j. if j = stored_json then stored_text
                            else if j = undated_json then undated_text else []),
       js_parse = (\<lambda>s. if s = stored_text then Some stored_json
                        else if s = undated_text then Some undated_json else None),
       toISOString = (\<lambda>t. if t = 0 then ''1970-01-01T00:00:00.000Z''
                           else if t = 1000 then ''1970-01-01T00:00:01.000Z'' else []),
       date_of_string = (\<lambda>s. if s = ''1970-01-01T00:00:00.000Z'' then Date 0
                              else if s = ''1970-01-01T00:00:01.000Z'' then Date 1000
                              else InvalidDate),
       date_of_number = (\<lambda>n. if n = ''0'' then Date 0 else InvalidDate),
       setItem_throws = (\<lambda>k v. False) \<rparr>"

text \<open>The same runtime with a store that is full.\<close>

definition full_runtime :: runtime where
  "full_runtime = sample_runtime\<lparr>setItem_throws := (\<lambda>k v. True)\<rparr>"

section \<open>Properties\<close>

subsection \<open>Lines, payloads and chunks\<close>

lemma dropWhile_all: "(\<forall>c\<in>set (dropWhile P s). P c) \<longleftrightarrow> (\<forall>c\<in>set s. P c)"
proof
  assume a: "\<forall>c\<in>set (dropWhile P s). P c"
  have "dropWhile P s = []"
  proof (rule ccontr)
    assume n: "dropWhile P s \<noteq> []"
    then have "\<not> P (hd (dropWhile P s))" by (rule hd_dropWhile)
    moreover from n have "hd (dropWhile P s) \<in> set (dropWhile P s)" by simp
    ultimately show False using a by blast
  qed
  then show "\<forall>c\<in>set s. P c" by (simp add: dropWhile_eq_Nil_conv)
next
  assume "\<forall>c\<in>set s. P c"
  then show "\<forall>c\<in>set (dropWhile P s). P c"
    using set_dropWhileD by fastforce
qed

lemma trim_eq_Nil: "trim s = [] \<longleftrightarrow> (\<forall>c\<in>set s. is_space c)"
  by (simp add: trim_def dropWhile_eq_Nil_conv dropWhile_all)

lemma startsWith_iff: "startsWith s p \<longleftrightarrow> (\<exists>r. s = p @ r)"
proof
  assume "startsWith s p"
  then have "s = p @ drop (length p) s"
    unfolding startsWith_def by (metis append_take_drop_id)
  then show "\<exists>r. s = p @ r" ..
next
  assume "\<exists>r. s = p @ r"
  then show "startsWith s p" by (auto simp: startsWith_def)
qed

lemma startsWith_data:
  assumes "startsWith line ''data:''"
  shows "trim line \<noteq> []" "\<not> startsWith line '':''" "\<not> startsWith line ''event:''"
proof -
  from assms obtain r where l: "line = ''data:'' @ r" by (auto simp: startsWith_iff)
  show "trim line \<noteq> []" by (simp add: trim_eq_Nil l is_space_def)
  show "\<not> startsWith line '':''" by (simp add: startsWith_def l)
  show "\<not> startsWith line ''event:''" by (simp add: startsWith_def l)
qed

lemma process_line_data:
  assumes "startsWith line ''data:''"
  shows "process_line pr st line =
     (case pr (trim (slice line 5)) of
        None \<Rightarrow> append_raw st (trim (slice line 5))
      | Some data \<Rightarrow>
          (case dispatch st data of
             (None, st1) \<Rightarrow> st1
           | (Some e, st1) \<Rightarrow> append_raw st1 (trim (slice line 5))))
     \<lparr>currentEventType := ''message''\<rparr>"
  using startsWith_data [OF assms] assms by (simp add: process_line_def Let_def)

lemma split_nl_not_Nil [simp]: "split_nl s \<noteq> []"
  by (induction s) (auto split: list.splits)

lemma split_nl_append:
  "split_nl (a @ b) = butlast (split_nl a) @ split_nl (last (split_nl a) @ b)"
proof (induction a)
  case Nil
  show ?case by simp
next
  case (Cons c a)
  show ?case
  proof (cases "split_nl a")
    case Nil
    then show ?thesis by simp
  next
    case (Cons x xs)
    with Cons.IH show ?thesis
      by (cases xs) (auto split: list.splits)
  qed
qed

lemma dispatch_buffer:
  "dispatch (st\<lparr>buffer := b\<rparr>) data = (fst (dispatch st data), (snd (dispatch st data))\<lparr>buffer := b\<rparr>)"
  by (simp add: dispatch_def Let_def split: option.splits)

lemma process_line_buffer:
  "process_line pr (st\<lparr>buffer := b\<rparr>) line = (process_line pr st line)\<lparr>buffer := b\<rparr>"
  by (simp add: process_line_def Let_def dispatch_buffer append_raw_def split: option.splits prod.splits)

lemma foldl_process_line_buffer:
  "foldl (process_line pr) (st\<lparr>buffer := b\<rparr>) ls = (foldl (process_line pr) st ls)\<lparr>buffer := b\<rparr>"
  by (induction ls arbitrary: st) (simp_all add: process_line_buffer)

lemma feed_alt:
  "feed pr st chunk =
     (foldl (process_line pr) st (butlast (split_nl (buffer st @ chunk))))
       \<lparr>buffer := last (split_nl (buffer st @ chunk))\<rparr>"
  by (simp add: feed_def Let_def foldl_process_line_buffer)

lemma buffer_feed: "buffer (feed pr st chunk) = last (split_nl (buffer st @ chunk))"
  by (simp add: feed_alt)

lemma feed_append: "feed pr (feed pr st a) b = feed pr st (a @ b)"
proof -
  let ?La = "split_nl (buffer st @ a)"
  let ?Lb = "split_nl (last ?La @ b)"
  have L: "split_nl (buffer st @ a @ b) = butlast ?La @ ?Lb"
    using split_nl_append [of "buffer st @ a" b] by simp
  have "feed pr (feed pr st a) b =
        (foldl (process_line pr) (feed pr st a) (butlast ?Lb))\<lparr>buffer := last ?Lb\<rparr>"
    by (simp add: feed_alt [of pr "feed pr st a"] buffer_feed)
  also have "\<dots> = (foldl (process_line pr) st (butlast ?La @ butlast ?Lb))\<lparr>buffer := last ?Lb\<rparr>"
    by (simp add: feed_alt [of pr st a] foldl_process_line_buffer)
  also have "\<dots> = feed pr st (a @ b)"
    by (simp add: feed_alt [of pr st "a @ b"] L butlast_append)
  finally show ?thesis .
qed

lemma foldl_feed_concat:
  "cks \<noteq> [] \<Longrightarrow> foldl (feed pr) st cks = feed pr st (concat cks)"
proof (induction cks arbitrary: st)
  case Nil
  then show ?case by simp
next
  case (Cons c cs)
  show ?case
  proof (cases "cs = []")
    case True
    then show ?thesis by simp
  next
    case False
    with Cons.IH [of "feed pr st c"] show ?thesis by (simp add: feed_append)
  qed
qed

lemma run_stream_concat: "run_stream pr cks = run_stream pr [concat cks]"
proof (cases "cks = []")
  case True
  then show ?thesis by (simp add: run_stream_def feed_def init_stream_def)
next
  case False
  then show ?thesis by (simp add: run_stream_def foldl_feed_concat)
qed

lemma split_nl_line: "CHR 0x0A \<notin> set l \<Longrightarrow> split_nl (l @ CHR 0x0A # r) = l # split_nl r"
  by (induction l) auto

lemma split_nl_tail: "CHR 0x0A \<notin> set r \<Longrightarrow> split_nl r = [r]"
  by (induction r) auto

lemma split_nl_lines:
  "\<forall>l\<in>set ls. CHR 0x0A \<notin> set l \<Longrightarrow>
   split_nl (concat (map (\<lambda>l. l @ [CHR 0x0A]) ls) @ r) = ls @ split_nl r"
  by (induction ls) (simp_all add: split_nl_line)

lemma feed_lines:
  assumes "\<forall>l\<in>set ls. CHR 0x0A \<notin> set l" "CHR 0x0A \<notin> set r"
    and "buffer st @ chunk = concat (map (\<lambda>l. l @ [CHR 0x0A]) ls) @ r"
  shows "feed pr st chunk = (foldl (process_line pr) st ls)\<lparr>buffer := r\<rparr>"
  using split_nl_lines [OF assms(1), of r] split_nl_tail [OF assms(2)]
  by (simp add: feed_alt assms(3))

lemma run_stream_lines:
  assumes "\<forall>l\<in>set ls. CHR 0x0A \<notin> set l" "CHR 0x0A \<notin> set r"
    and "concat cks = concat (map (\<lambda>l. l @ [CHR 0x0A]) ls) @ r"
  shows "run_stream pr cks = (foldl (process_line pr) init_stream ls)\<lparr>buffer := r\<rparr>"
proof -
  have "run_stream pr cks = feed pr init_stream (concat cks)"
    using run_stream_concat [of pr cks] by (simp add: run_stream_def)
  also have "\<dots> = (foldl (process_line pr) init_stream ls)\<lparr>buffer := r\<rparr>"
    by (rule feed_lines [OF assms(1,2)]) (simp add: init_stream_def assms(3))
  finally show ?thesis .
qed

lemma rev_split: "xs = rev (dropWhile P (rev xs)) @ rev (takeWhile P (rev xs))"
proof -
  have "rev (rev xs) = rev (takeWhile P (rev xs) @ dropWhile P (rev xs))"
    by (simp only: takeWhile_dropWhile_id)
  then show ?thesis by (simp only: rev_rev_ident rev_append)
qed

lemma trim_suffix:
  "dropWhile is_space s = trim s @ rev (takeWhile is_space (rev (dropWhile is_space s)))"
  unfolding trim_def by (rule rev_split)

lemma trim_decomp:
  "\<exists>pre post. s = pre @ trim s @ post \<and> list_all is_space pre \<and> list_all is_space post"
proof -
  let ?d = "dropWhile is_space s"
  let ?post = "rev (takeWhile is_space (rev ?d))"
  have "s = takeWhile is_space s @ ?d" by simp
  also have "?d = trim s @ ?post" by (rule trim_suffix)
  finally have 1: "s = takeWhile is_space s @ trim s @ ?post" .
  have 3: "list_all is_space (takeWhile is_space s)"
    by (auto simp: list_all_iff dest: set_takeWhileD)
  have 4: "list_all is_space ?post"
    by (auto simp: list_all_iff dest: set_takeWhileD)
  from 1 3 4 show ?thesis by blast
qed

lemma trim_ends:
  assumes "trim s \<noteq> []"
  shows "\<not> is_space (hd (trim s))" "\<not> is_space (last (trim s))"
proof -
  let ?d = "dropWhile is_space s"
  let ?e = "dropWhile is_space (rev ?d)"
  from assms have e: "?e \<noteq> []" by (simp add: trim_def)
  then have "\<not> is_space (hd ?e)" by (rule hd_dropWhile)
  moreover have "last (trim s) = hd ?e" using e by (simp add: trim_def last_rev)
  ultimately show "\<not> is_space (last (trim s))" by simp
  have d: "?d \<noteq> []"
  proof
    assume "?d = []"
    then have "rev ?d = []" by (simp only: rev.simps)
    then have "?e = []" by (simp only: dropWhile.simps)
    with e show False by contradiction
  qed
  then have nd: "\<not> is_space (hd ?d)" by (rule hd_dropWhile)
  from trim_suffix [of s] assms have "hd ?d = hd (trim s)" by (metis hd_append2)
  with nd show "\<not> is_space (hd (trim s))" by simp
qed

lemma trim_id:
  assumes "s \<noteq> []" "\<not> is_space (hd s)" "\<not> is_space (last s)"
  shows "trim s = s"
proof -
  from assms(1,2) have 1: "dropWhile is_space s = s" by (cases s) auto
  from assms(1,3) have "dropWhile is_space (rev s) = rev s"
    by (cases "rev s") (auto simp: hd_rev [symmetric] simp del: rev_is_Nil_conv)
  with 1 show ?thesis by (simp add: trim_def)
qed

subsection \<open>Raw payloads and progress events\<close>

lemmas eval_line =
  process_line_def dispatch_def append_raw_def upsert_def newStep_def same_key_def
  trim_def is_space_def startsWith_def slice_def sample_parse_def init_stream_def

text \<open>
  Claim C8, as amended.  For a line that begins with \<^verbatim>\<open>data:\<close> and whose payload
  is not JSON, the text after the prefix is appended to the content buffer (the ref
  and the published state) with the whitespace at its two ends removed and everything
  between kept as it is: the line's text is whitespace, then the appended text, then
  whitespace, and the appended text neither begins nor ends with whitespace.  A text
  with no whitespace at its ends is appended unchanged.
\<close>

theorem C8_amended:
  assumes "startsWith line ''data:''" and "pr (trim (slice line 5)) = None"
  shows "streamingContentRef (process_line pr st line)
           = streamingContentRef st @ trim (slice line 5)
       \<and> streamingContent (process_line pr st line)
           = streamingContentRef st @ trim (slice line 5)
       \<and> (\<exists>pre post. slice line 5 = pre @ trim (slice line 5) @ post
              \<and> list_all is_space pre \<and> list_all is_space post)
       \<and> (trim (slice line 5) \<noteq> []
            \<longrightarrow> \<not> is_space (hd (trim (slice line 5)))
                \<and> \<not> is_space (last (trim (slice line 5))))
       \<and> (slice line 5 \<noteq> [] \<and> \<not> is_space (hd (slice line 5))
              \<and> \<not> is_space (last (slice line 5))
            \<longrightarrow> streamingContentRef (process_line pr st line)
                  = streamingContentRef st @ slice line 5)"
proof -
  have 1: "streamingContentRef (process_line pr st line)
             = streamingContentRef st @ trim (slice line 5)"
    "streamingContent (process_line pr st line)
             = streamingContentRef st @ trim (slice line 5)"
    using assms by (simp_all add: process_line_data append_raw_def)
  have 2: "streamingContentRef (process_line pr st line) = streamingContentRef st @ slice line 5"
    if "slice line 5 \<noteq> []" "\<not> is_space (hd (slice line 5))" "\<not> is_space (last (slice line 5))"
    using 1(1) trim_id [OF that] by simp
  from 1 2 trim_decomp [of "slice line 5"] trim_ends [of "slice line 5"]
  show ?thesis by blast
qed

text \<open>
  Claim C8 as stated fails: for the line \<^verbatim>\<open>data:  two  words  \<close> the text after the
  prefix has two blanks at each end, and the text appended is \<^verbatim>\<open>two  words\<close>.
\<close>

theorem C8_counterexample:
  "startsWith ''data:  two  words  '' ''data:''
   \<and> sample_parse (trim (slice ''data:  two  words  '' 5)) = None
   \<and> slice ''data:  two  words  '' 5 = ''  two  words  ''
   \<and> streamingContentRef (process_line sample_parse init_stream ''data:  two  words  '')
       = ''two  words''
   \<and> streamingContentRef (process_line sample_parse init_stream ''data:  two  words  '')
       \<noteq> streamingContentRef init_stream @ slice ''data:  two  words  '' 5"
  by (simp add: eval_line Let_def)

text \<open>
  Claim C8, as amended, at the lines \<^verbatim>\<open>data: hello \<close> and \<^verbatim>\<open>data:hello\<close>.
\<close>

theorem C8_amended_witness:
  "startsWith ''data: hello '' ''data:''
   \<and> sample_parse (trim (slice ''data: hello '' 5)) = None
   \<and> streamingContentRef (process_line sample_parse init_stream ''data: hello '') = ''hello''
   \<and> startsWith ''data:hello'' ''data:''
   \<and> streamingContentRef (process_line sample_parse init_stream ''data:hello'')
       = slice ''data:hello'' 5"
  using C8_amended [of "''data: hello ''" sample_parse init_stream]
    C8_amended [of "''data:hello''" sample_parse init_stream]
  by (simp add: startsWith_def trim_def slice_def is_space_def sample_parse_def init_stream_def)

lemma findIndex_Some:
  "findIndex P xs = Some i \<Longrightarrow> i < length xs \<and> P (xs ! i) \<and> (\<forall>j<i. \<not> P (xs ! j))"
proof (induction xs arbitrary: i)
  case Nil
  then show ?case by simp
next
  case (Cons x xs)
  show ?case
  proof (cases "P x")
    case True
    with Cons.prems show ?thesis by simp
  next
    case False
    with Cons.prems obtain k where k: "findIndex P xs = Some k" "i = Suc k" by auto
    from Cons.IH [OF k(1)] False k(2) show ?thesis
      by (auto simp: less_Suc_eq_0_disj)
  qed
qed

lemma findIndex_None: "findIndex P xs = None \<longleftrightarrow> (\<forall>x\<in>set xs. \<not> P x)"
  by (induction xs) auto

lemma findIndex_first:
  "i < length xs \<Longrightarrow> P (xs ! i) \<Longrightarrow> \<forall>j<i. \<not> P (xs ! j) \<Longrightarrow> findIndex P xs = Some i"
proof (induction xs arbitrary: i)
  case Nil
  then show ?case by simp
next
  case (Cons x xs)
  show ?case
  proof (cases i)
    case 0
    with Cons.prems show ?thesis by simp
  next
    case (Suc k)
    with Cons.prems have "\<not> P x" by auto
    moreover from Cons.prems Suc have "findIndex P xs = Some k"
      by (intro Cons.IH) auto
    ultimately show ?thesis using Suc by simp
  qed
qed


lemma dispatch_progress:
  assumes "currentEventType st = ''progress''" "data \<noteq> JNull"
  shows "dispatch st data =
     (let st1 = (if truthy (field data ''tool'') \<or> truthy (field data ''file'')
                    \<or> truthy (field data ''action'')
                 then st\<lparr>progressSteps := upsert (progressSteps st) (newStep data)\<rparr>
                 else st)
      in (case concat_value (field data ''content'') of
            None \<Rightarrow> (Some TypeError, st1)
          | Some txt \<Rightarrow>
              (None, st1\<lparr>streamingContentRef := streamingContentRef st1 @ txt,
                          streamingContent := streamingContentRef st1 @ txt\<rparr>)))"
  using assms by (simp add: dispatch_def)




subsection \<open>Chunk boundaries\<close>

text \<open>
  Claim C3.  However the text of the stream is cut into chunks, the read loop ends in
  the same state (content buffer, progress list, thinking flag, and the loop variables)
  as when the whole text arrives in one chunk: when the text is a sequence of lines,
  each ended by a line feed, followed by a rest without line feed, the loop has
  processed exactly those lines in order and holds the rest in its buffer.  One read
  does the same with the buffered rest put in front of the chunk.  The chunks are the
  texts that the streaming decoder returns for the reads.
\<close>

theorem C3:
  "run_stream pr cks = run_stream pr [concat cks]
   \<and> ((\<forall>l\<in>set ls. CHR 0x0A \<notin> set l) \<and> CHR 0x0A \<notin> set r
        \<and> concat cks = concat (map (\<lambda>l. l @ [CHR 0x0A]) ls) @ r
      \<longrightarrow> run_stream pr cks = (foldl (process_line pr) init_stream ls)\<lparr>buffer := r\<rparr>)
   \<and> ((\<forall>l\<in>set ls'. CHR 0x0A \<notin> set l) \<and> CHR 0x0A \<notin> set r'
        \<and> buffer st @ chunk = concat (map (\<lambda>l. l @ [CHR 0x0A]) ls') @ r'
      \<longrightarrow> feed pr st chunk = (foldl (process_line pr) st ls')\<lparr>buffer := r'\<rparr>)"
  using run_stream_concat [of pr cks] run_stream_lines [of ls r cks pr]
    feed_lines [of ls' r' st chunk pr]
  by blast

text \<open>
  Claim C3 at a data line cut inside its payload: the first read buffers the
  incomplete line and appends nothing, the second completes and processes it.
\<close>

theorem C3_witness:
  \<open>(let first = ''event:progress'' @ [CHR 0x0A] @ ''data:{"content":"ab'';
        second = ''c"}'' @ [CHR 0x0A]
    in run_stream sample_parse [first, second] = run_stream sample_parse [first @ second]
       \<and> buffer (feed sample_parse init_stream first) = ''data:{"content":"ab''
       \<and> streamingContentRef (feed sample_parse init_stream first) = []
       \<and> feed sample_parse (feed sample_parse init_stream first) second
           = (process_line sample_parse (feed sample_parse init_stream first)
                ''data:{"content":"abc"}'')\<lparr>buffer := []\<rparr>
       \<and> streamingContentRef (run_stream sample_parse [first, second]) = ''abc''
       \<and> buffer (run_stream sample_parse [first, second]) = [])\<close>
proof -
  let ?first = \<open>''event:progress'' @ [CHR 0x0A] @ ''data:{"content":"ab''\<close>
  let ?second = \<open>''c"}'' @ [CHR 0x0A]\<close>
  from C3 [of sample_parse "[?first, ?second]"
             \<open>[''event:progress'', ''data:{"content":"abc"}'']\<close> "[]"
             \<open>[''data:{"content":"abc"}'']\<close> "[]"
             "feed sample_parse init_stream ?first" ?second]
  show ?thesis
    by (simp add: Let_def run_stream_def feed_def eval_line)
qed

subsection \<open>The session store\<close>

lemma ids_map_update:
  "session_id ` set (map (\<lambda>s. if session_id s = x then f s else s) ss) = session_id ` set ss"
  if "\<And>s. session_id (f s) = session_id s"
  by (induction ss) (simp_all add: that)

lemma sessions_apply_op_nonempty:
  "sessions st \<noteq> [] \<Longrightarrow> sessions (apply_op st op) \<noteq> []"
  by (cases op)
     (simp_all add: createSession_def switchSession_def deleteSession_def Let_def
        updateSessionName_def updateSessionAgent_def addMessageToSession_def
        store_after_def setSessionMessages_def clearSessionMessages_def)

lemma deleteSession_nonempty: "sessions (deleteSession st sid newId now) \<noteq> []"
  by (simp add: deleteSession_def Let_def)

lemma deleteSession_last:
  "sessions st = [s] \<Longrightarrow> session_id s = sid \<Longrightarrow>
   deleteSession st sid newId now =
     st\<lparr>sessions := [createEmptySession ''default'' newId now],
        activeSessionId := Some newId, stored_active := Some newId\<rparr>"
  by (simp add: deleteSession_def Let_def)

lemma active_present_ids:
  "active_present st \<longleftrightarrow> (\<exists>a. activeSessionId st = Some a \<and> a \<in> session_id ` set (sessions st))"
  by (auto simp: active_present_def split: option.splits)

lemma active_present_delete:
  assumes "active_present st"
  shows "active_present (deleteSession st sid newId now)"
proof -
  let ?f = "filter (\<lambda>s. session_id s \<noteq> sid) (sessions st)"
  from assms obtain a where a: "activeSessionId st = Some a" "a \<in> session_id ` set (sessions st)"
    by (auto simp: active_present_ids)
  show ?thesis
  proof (cases "?f = []")
    case True
    then show ?thesis
      by (simp add: deleteSession_def Let_def active_present_ids createEmptySession_def)
  next
    case False
    show ?thesis
    proof (cases "a = sid")
      case True
      have "set ?f \<subseteq> {s \<in> set (sessions st). session_id s \<noteq> sid}" by auto
      with hd_in_set [OF False]
      have "hd ?f \<in> set (sessions st)" "session_id (hd ?f) \<noteq> sid" by blast+
      with False a True show ?thesis
        by (simp add: deleteSession_def Let_def active_present_ids)
    next
      case False
      with \<open>?f \<noteq> []\<close> a show ?thesis
        by (auto simp: deleteSession_def Let_def active_present_ids)
    qed
  qed
qed

lemma active_present_apply_op:
  assumes "active_present st" "\<forall>x. op \<noteq> SwitchSession x"
  shows "active_present (apply_op st op)"
proof (cases op)
  case (CreateSession agent newId now)
  then show ?thesis
    by (simp add: createSession_def active_present_ids createEmptySession_def)
next
  case (SwitchSession x)
  with assms(2) show ?thesis by simp
next
  case (DeleteSession sid newId now)
  with assms(1) show ?thesis by (simp add: active_present_delete)
next
  case (UpdateSessionName sid n now)
  with assms(1) show ?thesis
    by (simp add: updateSessionName_def active_present_ids ids_map_update del: set_map)
next
  case (UpdateSessionAgent sid a now)
  with assms(1) show ?thesis
    by (simp add: updateSessionAgent_def active_present_ids ids_map_update del: set_map)
next
  case (AddMessageToSession sid m now)
  with assms(1) show ?thesis
    by (simp add: addMessageToSession_def store_after_def active_present_ids ids_map_update
        del: set_map)
next
  case (SetSessionMessages sid ms now)
  with assms(1) show ?thesis
    by (simp add: setSessionMessages_def active_present_ids ids_map_update del: set_map)
next
  case (ClearSessionMessages sid now)
  with assms(1) show ?thesis
    by (simp add: clearSessionMessages_def active_present_ids ids_map_update del: set_map)
qed

lemma mount_ok: "sessions (mount loaded stored newId now) \<noteq> [] \<and> active_present (mount loaded stored newId now)"
proof (cases "loaded = []")
  case True
  then show ?thesis by (simp add: mount_def active_present_def createEmptySession_def)
next
  case False
  then have "hd loaded \<in> set loaded" by simp
  with False show ?thesis
    by (auto simp: mount_def active_present_def find_Some_iff split: option.splits)
qed

text \<open>
  Claim C7, as amended.  The collection is not empty after the mount effect, stays
  non-empty under every operation, and is never empty after a deletion; deleting the
  only session leaves exactly one new empty session, which is the active one.  The
  active pointer names a session of the collection after the mount effect and after
  every operation other than \<^verbatim>\<open>switchSession\<close> if it did before; \<^verbatim>\<open>switchSession\<close>
  sets the pointer to the identifier it is given, which names a session exactly when
  such a session exists.
\<close>

theorem C7_amended:
  "(sessions (mount loaded stored newId now) \<noteq> []
      \<and> active_present (mount loaded stored newId now))
   \<and> (sessions st \<noteq> [] \<longrightarrow> sessions (apply_op st op) \<noteq> [])
   \<and> sessions (deleteSession st sid newId now) \<noteq> []
   \<and> (sessions st = [s] \<and> session_id s = sid \<longrightarrow>
        sessions (deleteSession st sid newId now) = [createEmptySession ''default'' newId now]
        \<and> messages (createEmptySession ''default'' newId now) = []
        \<and> activeSessionId (deleteSession st sid newId now) = Some newId)
   \<and> (active_present st \<and> (\<forall>x. op \<noteq> SwitchSession x) \<longrightarrow> active_present (apply_op st op))
   \<and> (active_present (switchSession st x) \<longleftrightarrow> x \<in> session_id ` set (sessions st))"
proof -
  have "active_present (switchSession st x) \<longleftrightarrow> x \<in> session_id ` set (sessions st)"
    by (simp add: switchSession_def active_present_def)
  moreover have "sessions st = [s] \<and> session_id s = sid \<longrightarrow>
        sessions (deleteSession st sid newId now) = [createEmptySession ''default'' newId now]
        \<and> messages (createEmptySession ''default'' newId now) = []
        \<and> activeSessionId (deleteSession st sid newId now) = Some newId"
    by (simp add: deleteSession_last createEmptySession_def)
  ultimately show ?thesis
    using mount_ok sessions_apply_op_nonempty deleteSession_nonempty active_present_apply_op
    by blast
qed

text \<open>
  Claim C7 as stated fails: \<^verbatim>\<open>switchSession\<close> with an identifier that no session has
  leaves the active pointer outside the collection.
\<close>

theorem C7_counterexample:
  "active_present sample_store
   \<and> \<not> active_present (apply_op sample_store (SwitchSession ''gone''))"
  by (simp add: sample_store_def sample_session_def active_present_def switchSession_def)

text \<open>
  Claim C7, as amended, at the deletion of the only session of the sample store.
\<close>

theorem C7_amended_witness:
  "sessions sample_store = [sample_session] \<and> session_id sample_session = ''s1''
   \<and> active_present sample_store
   \<and> sessions (deleteSession sample_store ''s1'' ''s2'' 5) = [createEmptySession ''default'' ''s2'' 5]
   \<and> activeSessionId (deleteSession sample_store ''s1'' ''s2'' 5) = Some ''s2''
   \<and> active_present (apply_op sample_store (DeleteSession ''s1'' ''s2'' 5))
   \<and> sessions (apply_op sample_store (DeleteSession ''s1'' ''s2'' 5)) \<noteq> []"
  using C7_amended [of "[]" None "''s2''" 5 sample_store "DeleteSession ''s1'' ''s2'' 5" "''s1''" sample_session "''s1''"]
  by (simp add: sample_store_def sample_session_def active_present_def deleteSession_def
        mount_def createEmptySession_def)

subsection \<open>The progress list\<close>

lemma strict_eq_imp_eq: "strict_eq a b \<Longrightarrow> a = b"
  by (induction a b rule: strict_eq.induct) simp_all

lemma strict_eq_primitive: "is_primitive a \<Longrightarrow> strict_eq a a"
  by (induction a rule: is_primitive.induct) simp_all

lemma strict_eq_sym: "strict_eq a b \<Longrightarrow> strict_eq b a"
  by (induction a b rule: strict_eq.induct) simp_all

lemma same_key_sym: "same_key a b \<Longrightarrow> same_key b a"
  by (simp add: same_key_def strict_eq_sym)

lemma same_key_trans: "same_key n a \<Longrightarrow> same_key n b \<Longrightarrow> same_key a b"
proof -
  assume a: "same_key n a" and b: "same_key n b"
  from a have "tool a = tool n" "file a = file n"
    by (auto simp: same_key_def dest: strict_eq_imp_eq)
  with b show "same_key a b" by (simp add: same_key_def)
qed

lemma distinct_keys_iff:
  "distinct_keys xs \<longleftrightarrow>
     (\<forall>i<length xs. \<forall>j<length xs. i < j \<longrightarrow> \<not> same_key (xs ! i) (xs ! j))"
proof (induction xs)
  case Nil
  show ?case by simp
next
  case (Cons x xs)
  have hd: "(\<forall>t\<in>set xs. \<not> same_key x t) \<longleftrightarrow> (\<forall>j<length xs. \<not> same_key x (xs ! j))"
    by (simp add: all_set_conv_all_nth)
  have "(\<forall>i<length (x # xs). \<forall>j<length (x # xs). i < j \<longrightarrow> \<not> same_key ((x # xs) ! i) ((x # xs) ! j))
        \<longleftrightarrow> (\<forall>j<length xs. \<not> same_key x (xs ! j))
            \<and> (\<forall>i<length xs. \<forall>j<length xs. i < j \<longrightarrow> \<not> same_key (xs ! i) (xs ! j))"
    (is "?L \<longleftrightarrow> ?A \<and> ?B")
  proof
    assume l: ?L
    have ?A
    proof (intro allI impI)
      fix j assume "j < length xs"
      with l [rule_format, of 0 "Suc j"] show "\<not> same_key x (xs ! j)" by simp
    qed
    moreover have ?B
    proof (intro allI impI)
      fix i j assume "i < length xs" "j < length xs" "i < j"
      with l [rule_format, of "Suc i" "Suc j"] show "\<not> same_key (xs ! i) (xs ! j)" by simp
    qed
    ultimately show "?A \<and> ?B" ..
  next
    assume ab: "?A \<and> ?B"
    show ?L
    proof (intro allI impI)
      fix i j assume ij: "i < length (x # xs)" "j < length (x # xs)" "i < j"
      then obtain j' where j': "j = Suc j'" by (cases j) auto
      show "\<not> same_key ((x # xs) ! i) ((x # xs) ! j)"
      proof (cases i)
        case 0
        with ab ij j' show ?thesis by simp
      next
        case (Suc i')
        with ab ij j' show ?thesis by simp
      qed
    qed
  qed
  with Cons.IH hd show ?case by (simp add: list_all_iff)
qed

lemma distinct_keys_neq:
  "distinct_keys xs \<Longrightarrow> i < length xs \<Longrightarrow> j < length xs \<Longrightarrow> i \<noteq> j
   \<Longrightarrow> \<not> same_key (xs ! i) (xs ! j)"
  using distinct_keys_iff [of xs] same_key_sym
  by (metis linorder_neqE_nat)

lemma upsert_replace:
  "i < length prev \<Longrightarrow> same_key new (prev ! i) \<Longrightarrow> \<forall>j<i. \<not> same_key new (prev ! j)
   \<Longrightarrow> upsert prev new = prev[i := new]"
  by (simp add: upsert_def findIndex_first)

lemma upsert_append: "\<forall>s\<in>set prev. \<not> same_key new s \<Longrightarrow> upsert prev new = prev @ [new]"
  using findIndex_None [of "same_key new" prev] by (simp add: upsert_def)

lemma distinct_keys_upsert:
  assumes "distinct_keys prev"
  shows "distinct_keys (upsert prev new)"
proof (cases "findIndex (same_key new) prev")
  case None
  then have n: "\<forall>s\<in>set prev. \<not> same_key new s" by (simp add: findIndex_None)
  have "distinct_keys (prev @ [new])"
    unfolding distinct_keys_iff
  proof (intro allI impI)
    fix i j assume ij: "i < length (prev @ [new])" "j < length (prev @ [new])" "i < j"
    show "\<not> same_key ((prev @ [new]) ! i) ((prev @ [new]) ! j)"
    proof (cases "j < length prev")
      case True
      with ij assms distinct_keys_iff [of prev] show ?thesis by (simp add: nth_append)
    next
      case False
      with ij have j: "j = length prev" and i: "i < length prev" by auto
      from i n have "\<not> same_key new (prev ! i)" by simp
      then have "\<not> same_key (prev ! i) new" using same_key_sym by blast
      with i j show ?thesis by (simp add: nth_append)
    qed
  qed
  with None show ?thesis by (simp add: upsert_def)
next
  case (Some k)
  then have k: "k < length prev" "same_key new (prev ! k)"
    by (simp_all add: findIndex_Some)
  have "distinct_keys (prev[k := new])"
    unfolding distinct_keys_iff
  proof (intro allI impI)
    fix i j assume ij: "i < length (prev[k := new])" "j < length (prev[k := new])" "i < j"
    have other: "\<not> same_key new (prev ! m)" "\<not> same_key (prev ! m) new"
      if "m < length prev" "m \<noteq> k" for m
    proof -
      from assms that k(1) have "\<not> same_key (prev ! k) (prev ! m)"
        by (intro distinct_keys_neq) auto
      with k(2) show "\<not> same_key new (prev ! m)" using same_key_trans by blast
      then show "\<not> same_key (prev ! m) new" using same_key_sym by blast
    qed
    show "\<not> same_key (prev[k := new] ! i) (prev[k := new] ! j)"
    proof (cases "i = k")
      case True
      with ij other [of j] show ?thesis by simp
    next
      case ik: False
      show ?thesis
      proof (cases "j = k")
        case True
        with ij ik other [of i] show ?thesis by simp
      next
        case False
        with ik ij assms distinct_keys_iff [of prev] show ?thesis by simp
      qed
    qed
  qed
  with Some show ?thesis by (simp add: upsert_def)
qed

lemma distinct_keys_dispatch:
  "dispatch st data = (x, st') \<Longrightarrow> distinct_keys (progressSteps st)
   \<Longrightarrow> distinct_keys (progressSteps st')"
  by (auto simp: dispatch_def Let_def distinct_keys_upsert split: option.splits if_splits)

lemma distinct_keys_process_line:
  "distinct_keys (progressSteps st) \<Longrightarrow> distinct_keys (progressSteps (process_line pr st line))"
  by (auto simp: process_line_def Let_def append_raw_def dest: distinct_keys_dispatch
      split: option.splits prod.splits)

lemma distinct_keys_foldl:
  "distinct_keys (progressSteps st) \<Longrightarrow>
   distinct_keys (progressSteps (foldl (process_line pr) st ls))"
  by (induction ls arbitrary: st) (simp_all add: distinct_keys_process_line)

lemma distinct_keys_feed:
  "distinct_keys (progressSteps st) \<Longrightarrow> distinct_keys (progressSteps (feed pr st c))"
  by (simp add: feed_alt distinct_keys_foldl)

lemma distinct_keys_run: "distinct_keys (progressSteps (run_stream pr cks))"
proof -
  have "distinct_keys (progressSteps st) \<Longrightarrow> distinct_keys (progressSteps (foldl (feed pr) st cks))" for st
    by (induction cks arbitrary: st) (simp_all add: distinct_keys_feed)
  then show ?thesis by (simp add: run_stream_def init_stream_def)
qed

lemma two_frames:
  assumes "pr running_payload =
             Some (JObj [(''tool'', JStr ''grep''), (''file'', JStr ''a.py''),
                         (''status'', JStr ''running''), (''content'', JStr ''x'')])"
    and "pr completed_payload =
             Some (JObj [(''tool'', JStr ''grep''), (''file'', JStr ''a.py''),
                         (''status'', JStr ''completed''), (''content'', JStr ''y'')])"
  shows "run_stream pr
           [frame_text (''progress'', running_payload)
            @ frame_text (''progress'', completed_payload)]
         = \<lparr> buffer = [], currentEventType = ''message'', streamingContentRef = ''xy'',
             streamingContent = ''xy'', isThinking = False,
             progressSteps =
               [\<lparr>tool = Some (JStr ''grep''), file = Some (JStr ''a.py''), action = None,
                 status = JStr ''completed'', step_content = Some (JStr ''y'')\<rparr>] \<rparr>"
  using assms
  by (simp add: run_stream_def feed_def frame_text_def init_stream_def process_line_def
      dispatch_def append_raw_def upsert_def newStep_def same_key_def trim_def is_space_def
      startsWith_def slice_def running_payload_def completed_payload_def)

lemma progress_event:
  assumes "currentEventType st = ''progress''"
    and "startsWith line ''data:''"
    and "pr (trim (slice line 5)) = Some data"
  shows "progressSteps (process_line pr st line) =
     (if truthy (field data ''tool'') \<or> truthy (field data ''file'')
         \<or> truthy (field data ''action'')
      then upsert (progressSteps st) (newStep data) else progressSteps st)"
proof -
  have pl: "process_line pr st line =
      (case dispatch st data of (None, st1) \<Rightarrow> st1
       | (Some e, st1) \<Rightarrow> append_raw st1 (trim (slice line 5)))
      \<lparr>currentEventType := ''message''\<rparr>"
    using assms(2,3) by (simp add: process_line_data)
  show ?thesis
  proof (cases "data = JNull")
    case True
    with assms(1) show ?thesis
      by (simp add: pl dispatch_def append_raw_def)
  next
    case False
    show ?thesis
      by (simp add: pl dispatch_progress [OF assms(1) False] Let_def append_raw_def
          split: option.splits)
  qed
qed

text \<open>
  Claim C2, as amended.  After any stream the progress list has no two entries with
  the same \<^verbatim>\<open>(tool, file)\<close> key, and every progress event keeps it so.  A progress
  event in which \<^verbatim>\<open>tool\<close>, \<^verbatim>\<open>file\<close> or \<^verbatim>\<open>action\<close> is truthy replaces, in place,
  the first entry with its key, or is appended when no entry has its key; a progress
  event in which none of the three is truthy leaves the list as it is.  Keys are
  compared as \<^verbatim>\<open>findIndex\<close> compares them, which for strings, numbers, booleans,
  \<^verbatim>\<open>null\<close> and \<^verbatim>\<open>undefined\<close> is equality of the two fields.  The two frames for
  \<^verbatim>\<open>(grep, a.py)\<close> with status \<^verbatim>\<open>running\<close> and then \<^verbatim>\<open>completed\<close> leave one
  entry, with status \<^verbatim>\<open>completed\<close>, and the content \<^verbatim>\<open>xy\<close>.
\<close>

theorem C2_amended:
  assumes "currentEventType st = ''progress''"
    and "startsWith line ''data:''"
    and "pr (trim (slice line 5)) = Some data"
  shows "distinct_keys (progressSteps (run_stream pr cks))
   \<and> (distinct_keys (progressSteps st)
        \<longrightarrow> distinct_keys (progressSteps (process_line pr st line)))
   \<and> ((truthy (field data ''tool'') \<or> truthy (field data ''file'')
          \<or> truthy (field data ''action''))
        \<and> i < length (progressSteps st) \<and> same_key (newStep data) (progressSteps st ! i)
        \<and> (\<forall>j<i. \<not> same_key (newStep data) (progressSteps st ! j))
        \<longrightarrow> progressSteps (process_line pr st line) = (progressSteps st)[i := newStep data])
   \<and> ((truthy (field data ''tool'') \<or> truthy (field data ''file'')
          \<or> truthy (field data ''action''))
        \<and> (\<forall>s\<in>set (progressSteps st). \<not> same_key (newStep data) s)
        \<longrightarrow> progressSteps (process_line pr st line) = progressSteps st @ [newStep data])
   \<and> (\<not> truthy (field data ''tool'') \<and> \<not> truthy (field data ''file'')
          \<and> \<not> truthy (field data ''action'')
        \<longrightarrow> progressSteps (process_line pr st line) = progressSteps st)
   \<and> (is_primitive (tool s) \<and> is_primitive (file s)
        \<longrightarrow> (same_key new s \<longleftrightarrow> tool s = tool new \<and> file s = file new))
   \<and> (pr running_payload =
          Some (JObj [(''tool'', JStr ''grep''), (''file'', JStr ''a.py''),
                      (''status'', JStr ''running''), (''content'', JStr ''x'')])
       \<and> pr completed_payload =
          Some (JObj [(''tool'', JStr ''grep''), (''file'', JStr ''a.py''),
                      (''status'', JStr ''completed''), (''content'', JStr ''y'')])
       \<and> concat cks' = frame_text (''progress'', running_payload)
                         @ frame_text (''progress'', completed_payload)
        \<longrightarrow> progressSteps (run_stream pr cks')
              = [\<lparr>tool = Some (JStr ''grep''), file = Some (JStr ''a.py''), action = None,
                  status = JStr ''completed'', step_content = Some (JStr ''y'')\<rparr>]
            \<and> streamingContentRef (run_stream pr cks') = ''xy'')"
proof -
  note ev = progress_event [where pr = pr and st = st and line = line and data = data, OF assms]
  have ex: "progressSteps (run_stream pr cks')
              = [\<lparr>tool = Some (JStr ''grep''), file = Some (JStr ''a.py''), action = None,
                  status = JStr ''completed'', step_content = Some (JStr ''y'')\<rparr>]
            \<and> streamingContentRef (run_stream pr cks') = ''xy''"
    if "pr running_payload =
          Some (JObj [(''tool'', JStr ''grep''), (''file'', JStr ''a.py''),
                      (''status'', JStr ''running''), (''content'', JStr ''x'')])"
       "pr completed_payload =
          Some (JObj [(''tool'', JStr ''grep''), (''file'', JStr ''a.py''),
                      (''status'', JStr ''completed''), (''content'', JStr ''y'')])"
       "concat cks' = frame_text (''progress'', running_payload)
                         @ frame_text (''progress'', completed_payload)"
    using two_frames [OF that(1,2)] run_stream_concat [of pr cks'] that(3) by simp
  have pk: "is_primitive (tool s) \<and> is_primitive (file s)
        \<longrightarrow> (same_key new s \<longleftrightarrow> tool s = tool new \<and> file s = file new)"
    by (auto simp: same_key_def strict_eq_primitive dest: strict_eq_imp_eq)
  have rep: "progressSteps (process_line pr st line) = (progressSteps st)[i := newStep data]"
    if "truthy (field data ''tool'') \<or> truthy (field data ''file'')
          \<or> truthy (field data ''action'')"
      "i < length (progressSteps st)" "same_key (newStep data) (progressSteps st ! i)"
      "\<forall>j<i. \<not> same_key (newStep data) (progressSteps st ! j)"
    using that(1) upsert_replace [OF that(2,3,4)] by (simp add: ev)
  have app: "progressSteps (process_line pr st line) = progressSteps st @ [newStep data]"
    if "truthy (field data ''tool'') \<or> truthy (field data ''file'')
          \<or> truthy (field data ''action'')"
      "\<forall>s\<in>set (progressSteps st). \<not> same_key (newStep data) s"
    using that(1) upsert_append [OF that(2)] by (simp add: ev)
  have same: "progressSteps (process_line pr st line) = progressSteps st"
    if "\<not> truthy (field data ''tool'')" "\<not> truthy (field data ''file'')"
       "\<not> truthy (field data ''action'')"
    using that by (simp add: ev)
  from ex pk rep app same distinct_keys_run [of pr cks]
    distinct_keys_process_line [of st pr line]
  show ?thesis by blast
qed

text \<open>
  Claim C2 as stated fails: after an event with only \<^verbatim>\<open>action\<close>, a later event
  with the same key and only \<^verbatim>\<open>status\<close> does not replace the entry; and an event
  with the new key of \<^verbatim>\<open>{"tool":""}\<close> is not appended.
\<close>

theorem C2_counterexample:
  \<open>progressSteps (run_stream sample_parse
      [frame_text (''progress'', ''{"action":"read"}'')
       @ frame_text (''progress'', ''{"status":"completed"}'')])
     = [\<lparr>tool = None, file = None, action = Some (JStr ''read''),
         status = JStr ''running'', step_content = None\<rparr>]
   \<and> sample_parse ''{"status":"completed"}'' = Some (JObj [(''status'', JStr ''completed'')])
   \<and> same_key (newStep (JObj [(''status'', JStr ''completed'')]))
        \<lparr>tool = None, file = None, action = Some (JStr ''read''),
         status = JStr ''running'', step_content = None\<rparr>
   \<and> progressSteps (run_stream sample_parse [frame_text (''progress'', ''{"tool":""}'')]) = []
   \<and> tool (newStep (JObj [(''tool'', JStr [])])) = Some (JStr [])\<close>
  by (simp add: run_stream_def feed_def frame_text_def eval_line Let_def)

text \<open>
  Claim C2, as amended, at the two frames of the example and at an event without
  key fields.
\<close>

theorem C2_amended_witness:
  \<open>(let r = \<lparr>tool = Some (JStr ''grep''), file = Some (JStr ''a.py''), action = None,
             status = JStr ''running'', step_content = Some (JStr ''x'')\<rparr>;
        c = \<lparr>tool = Some (JStr ''grep''), file = Some (JStr ''a.py''), action = None,
             status = JStr ''completed'', step_content = Some (JStr ''y'')\<rparr>;
        st0 = init_stream\<lparr>currentEventType := ''progress''\<rparr>;
        st1 = init_stream\<lparr>currentEventType := ''progress'', progressSteps := [r]\<rparr>;
        parts = [frame_text (''progress'', running_payload),
                 frame_text (''progress'', completed_payload)]
    in same_key c r
       \<and> progressSteps (process_line sample_parse st0 (''data:'' @ running_payload)) = [r]
       \<and> progressSteps (process_line sample_parse st1 (''data:'' @ completed_payload)) = [c]
       \<and> progressSteps (process_line sample_parse st1 ''data:{"content":"abc"}'') = [r]
       \<and> progressSteps (run_stream sample_parse parts) = [c]
       \<and> streamingContentRef (run_stream sample_parse parts) = ''xy''
       \<and> distinct_keys (progressSteps (run_stream sample_parse parts)))\<close>
proof -
  let ?r = "\<lparr>tool = Some (JStr ''grep''), file = Some (JStr ''a.py''), action = None,
             status = JStr ''running'', step_content = Some (JStr ''x'')\<rparr>"
  let ?c = "\<lparr>tool = Some (JStr ''grep''), file = Some (JStr ''a.py''), action = None,
             status = JStr ''completed'', step_content = Some (JStr ''y'')\<rparr>"
  let ?st0 = "init_stream\<lparr>currentEventType := ''progress''\<rparr>"
  let ?st1 = "init_stream\<lparr>currentEventType := ''progress'', progressSteps := [?r]\<rparr>"
  let ?parts = "[frame_text (''progress'', running_payload),
                 frame_text (''progress'', completed_payload)]"
  let ?R = "JObj [(''tool'', JStr ''grep''), (''file'', JStr ''a.py''),
                  (''status'', JStr ''running''), (''content'', JStr ''x'')]"
  let ?C = "JObj [(''tool'', JStr ''grep''), (''file'', JStr ''a.py''),
                  (''status'', JStr ''completed''), (''content'', JStr ''y'')]"
  let ?B = "JObj [(''content'', JStr ''abc'')]"
  have e: "currentEventType ?st0 = ''progress''" "currentEventType ?st1 = ''progress''"
    by simp_all
  have sw: "startsWith (''data:'' @ running_payload) ''data:''"
    "startsWith (''data:'' @ completed_payload) ''data:''"
    \<open>startsWith ''data:{"content":"abc"}'' ''data:''\<close>
    by (simp_all add: startsWith_def)
  have p: "sample_parse (trim (slice (''data:'' @ running_payload) 5)) = Some ?R"
    "sample_parse (trim (slice (''data:'' @ completed_payload) 5)) = Some ?C"
    \<open>sample_parse (trim (slice ''data:{"content":"abc"}'' 5)) = Some ?B\<close>
    by (simp_all add: trim_def slice_def is_space_def sample_parse_def running_payload_def
        completed_payload_def)
  have k: "same_key ?c ?r" by (simp add: same_key_def)
  from C2_amended [where pr = sample_parse and st = ?st0 and data = ?R
        and line = "''data:'' @ running_payload" and cks = ?parts and i = 0 and s = ?r
        and new = ?c and cks' = ?parts, OF e(1) sw(1) p(1)]
    C2_amended [where pr = sample_parse and st = ?st1 and data = ?C
        and line = "''data:'' @ completed_payload" and cks = ?parts and i = 0 and s = ?r
        and new = ?c and cks' = ?parts, OF e(2) sw(2) p(2)]
    C2_amended [where pr = sample_parse and st = ?st1 and data = ?B
        and line = \<open>''data:{"content":"abc"}''\<close> and cks = ?parts and i = 0 and s = ?r
        and new = ?c and cks' = ?parts, OF e(2) sw(3) p(3)]
    k
  show ?thesis
    by (simp add: Let_def sample_parse_def running_payload_def completed_payload_def
        newStep_def same_key_def init_stream_def)
qed

subsection \<open>The content buffer\<close>











subsection \<open>The requests of a send\<close>

lemma page_try_stream_fails:
  assumes "request_fails e (''/api/chat/stream'', page_payload a input)
           \<or> read_error e (''/api/chat/stream'', page_payload a input)"
  shows "\<exists>x st'. page_try_stream e st a input
            = (Some x, st', [(''/api/chat/stream'', page_payload a input)])
          \<and> chat_messages st' = chat_messages st \<and> session_store st' = session_store st"
  using assms
  by (auto simp: page_try_stream_def request_fails_def read_error_def read_all_def Let_def
      split: sum.splits option.splits)

lemma hook_payload_cong:
  "hook_sessionId st' = hook_sessionId st \<Longrightarrow> hook_payload st' input = hook_payload st input"
  by (simp add: hook_payload_def)

lemma hook_try_stream_fails:
  assumes "request_fails e (''/api/chat/stream'', hook_payload st input)
           \<or> read_error e (''/api/chat/stream'', hook_payload st input)
           \<or> no_body e (''/api/chat/stream'', hook_payload st input)"
  shows "\<exists>x st'. hook_try_stream e st input
            = (Some x, st', [(''/api/chat/stream'', hook_payload st input)])
          \<and> chat_messages st' = chat_messages st \<and> hook_sessionId st' = hook_sessionId st"
  using assms
  by (auto simp: hook_try_stream_def request_fails_def read_error_def no_body_def read_all_def
      Let_def split: sum.splits option.splits)

lemma page_try_fallback_requests:
  "snd (snd (page_try_fallback e st a input)) = [(''/api/chat'', page_payload a input)]"
  by (simp add: page_try_fallback_def Let_def split: sum.splits option.splits)

lemma hook_try_fallback_requests:
  "snd (snd (hook_try_fallback e st input)) = [(''/api/chat'', hook_payload st input)]"
  by (simp add: hook_try_fallback_def Let_def split: sum.splits option.splits)

lemma page_try_fallback_result:
  "page_try_fallback e st a input =
     (if request_fails e (''/api/chat'', page_payload a input)
         \<or> unreadable_reply e (''/api/chat'', page_payload a input)
      then (Some (case fetch e (''/api/chat'', page_payload a input) of
                    Inl x \<Rightarrow> x
                  | Inr res \<Rightarrow> if \<not> ok res then ApiError (http_status res)
                               else if json_body res = None then SyntaxError else TypeError),
            st, [(''/api/chat'', page_payload a input)])
      else (None,
            (page_reply e st a input (fallback_reply e (''/api/chat'', page_payload a input)))
              \<lparr>showSummary := True\<rparr>,
            [(''/api/chat'', page_payload a input)]))"
  by (auto simp: page_try_fallback_def request_fails_def unreadable_reply_def fallback_reply_def
      Let_def split: sum.splits option.splits)

lemma hook_try_fallback_result:
  "hook_try_fallback e st input =
     (if request_fails e (''/api/chat'', hook_payload st input)
         \<or> unreadable_reply e (''/api/chat'', hook_payload st input)
      then (Some (case fetch e (''/api/chat'', hook_payload st input) of
                    Inl x \<Rightarrow> x
                  | Inr res \<Rightarrow> if \<not> ok res then ApiError (http_status res)
                               else if json_body res = None then SyntaxError else TypeError),
            st, [(''/api/chat'', hook_payload st input)])
      else (None,
            (hook_append st (fallback_reply e (''/api/chat'', hook_payload st input)))
              \<lparr>showSummary := True\<rparr>,
            [(''/api/chat'', hook_payload st input)]))"
  by (auto simp: hook_try_fallback_def request_fails_def unreadable_reply_def fallback_reply_def
      Let_def split: sum.splits option.splits)

lemma sendMessage_page_requests:
  assumes "activeSession (session_store st) = Some a" "trim input \<noteq> []" "\<not> isLoading st"
    and "request_fails e (''/api/chat/stream'', page_payload a input)
         \<or> read_error e (''/api/chat/stream'', page_payload a input)"
  shows "snd (sendMessage_page e st input)
         = [(''/api/chat/stream'', page_payload a input), (''/api/chat'', page_payload a input)]"
proof -
  let ?st1 = "reset_streaming (page_append st a (userMessage e input) (now_sent e))"
  from page_try_stream_fails [OF assms(4), of ?st1]
  obtain x st' where s: "page_try_stream e ?st1 a input
      = (Some x, st', [(''/api/chat/stream'', page_payload a input)])" by blast
  obtain y st'' rs where f: "page_try_fallback e st' a input = (y, st'', rs)"
    by (cases "page_try_fallback e st' a input") auto
  with page_try_fallback_requests [of e st' a input]
  have "rs = [(''/api/chat'', page_payload a input)]" by simp
  with assms(1-3) s f show ?thesis
    by (cases y) (simp_all add: sendMessage_page_def Let_def)
qed

lemma sendMessage_hook_requests:
  assumes "trim input \<noteq> []" "\<not> isLoading st"
    and "request_fails e (''/api/chat/stream'', hook_payload st input)
         \<or> read_error e (''/api/chat/stream'', hook_payload st input)
         \<or> no_body e (''/api/chat/stream'', hook_payload st input)"
  shows "snd (sendMessage_hook e st input)
         = [(''/api/chat/stream'', hook_payload st input), (''/api/chat'', hook_payload st input)]"
proof -
  let ?st1 = "reset_streaming (hook_append st (userMessage e input))"
  have p: "hook_payload ?st1 input = hook_payload st input"
    by (simp add: hook_payload_def reset_streaming_def hook_append_def)
  from hook_try_stream_fails [of e ?st1 input] assms(3) p
  obtain x st' where s: "hook_try_stream e ?st1 input
      = (Some x, st', [(''/api/chat/stream'', hook_payload st input)])"
      "hook_sessionId st' = hook_sessionId ?st1" by auto
  then have p': "hook_payload st' input = hook_payload st input"
    using p by (simp add: hook_payload_def)
  obtain y st'' rs where f: "hook_try_fallback e st' input = (y, st'', rs)"
    by (cases "hook_try_fallback e st' input") auto
  with hook_try_fallback_requests [of e st' input] p'
  have "rs = [(''/api/chat'', hook_payload st input)]" by simp
  with assms(1,2) s f show ?thesis
    by (cases y) (simp_all add: sendMessage_hook_def Let_def)
qed

text \<open>
  Claim C4.  When the streaming request fails (the fetch rejects, the status is not a
  success, or a read of the body rejects; in the hook also when the response has no
  body), \<^verbatim>\<open>sendMessage\<close> issues exactly two requests: the streaming request and then one
  request to \<^verbatim>\<open>/api/chat\<close> with the same payload.
\<close>

theorem C4:
  "(activeSession (session_store st) = Some a \<and> trim input \<noteq> [] \<and> \<not> isLoading st
      \<and> (request_fails e (''/api/chat/stream'', page_payload a input)
           \<or> read_error e (''/api/chat/stream'', page_payload a input))
     \<longrightarrow> snd (sendMessage_page e st input)
          = [(''/api/chat/stream'', page_payload a input), (''/api/chat'', page_payload a input)])
   \<and> (trim input \<noteq> [] \<and> \<not> isLoading hs
      \<and> (request_fails e (''/api/chat/stream'', hook_payload hs input)
           \<or> read_error e (''/api/chat/stream'', hook_payload hs input)
           \<or> no_body e (''/api/chat/stream'', hook_payload hs input))
     \<longrightarrow> snd (sendMessage_hook e hs input)
          = [(''/api/chat/stream'', hook_payload hs input), (''/api/chat'', hook_payload hs input)])"
  using sendMessage_page_requests sendMessage_hook_requests by blast

text \<open>
  Claim C4 at a streaming response with status 500.
\<close>

theorem C4_witness:
  "request_fails env_500 (''/api/chat/stream'', page_payload sample_session ''hi'')
   \<and> snd (sendMessage_page env_500 sample_page ''hi'')
       = [(''/api/chat/stream'',
            \<lparr>p_message = ''hi'', p_sessionId = ''s1'', p_agentId = Some ''default''\<rparr>),
          (''/api/chat'',
            \<lparr>p_message = ''hi'', p_sessionId = ''s1'', p_agentId = Some ''default''\<rparr>)]
   \<and> snd (sendMessage_hook env_500 sample_hook ''hi'')
       = [(''/api/chat/stream'',
            \<lparr>p_message = ''hi'', p_sessionId = ''web:session_1_abc'', p_agentId = None\<rparr>),
          (''/api/chat'',
            \<lparr>p_message = ''hi'', p_sessionId = ''web:session_1_abc'', p_agentId = None\<rparr>)]"
  using C4 [of sample_page sample_session "''hi''" env_500 sample_hook]
  by (simp add: activeSession_def sample_page_def sample_hook_def sample_store_def
      sample_session_def env_500_def request_fails_def page_payload_def hook_payload_def
      trim_def is_space_def)

subsection \<open>When both requests fail\<close>

lemmas eval_send =
  sendMessage_page_def sendMessage_hook_def page_try_stream_def page_try_fallback_def
  hook_try_stream_def hook_try_fallback_def page_reply_def page_append_def hook_append_def
  page_payload_def hook_payload_def reset_streaming_def finally_block_def stream_done_def
  read_all_def loop_start_def userMessage_def assistantMessage_def errorMessage_def
  fallback_content_def or_no_response_def activeSession_def addMessageToSession_def
  store_after_def
  updateSessionName_def request_fails_def read_error_def no_body_def unreadable_reply_def
  fallback_reply_def sample_page_def sample_hook_def sample_store_def sample_session_def
  env_500_def env_broken_stream_def

lemma chat_messages_page_reply [simp]:
  "chat_messages (page_reply e st a input m) = chat_messages st @ [m]"
  by (simp add: page_reply_def page_append_def Let_def)

lemma chat_messages_finally [simp]: "chat_messages (finally_block st) = chat_messages st"
  by (simp add: finally_block_def)

lemma session_store_finally [simp]: "session_store (finally_block st) = session_store st"
  by (simp add: finally_block_def)

lemma streamingContent_finally [simp]: "streamingContent (stream (finally_block st)) = []"
  by (simp add: finally_block_def)

lemma sendMessage_page_stream_failed:
  assumes "activeSession (session_store st) = Some a" "trim input \<noteq> []" "\<not> isLoading st"
    and "request_fails e (''/api/chat/stream'', page_payload a input)
         \<or> read_error e (''/api/chat/stream'', page_payload a input)"
  shows "\<exists>st'. chat_messages st' = chat_messages st @ [userMessage e input]
           \<and> session_store st'
               = store_after (session_store st)
                   (addMessageToSession (session_store st) (session_id a) (userMessage e input)
                      (now_sent e))
           \<and> fst (sendMessage_page e st input) =
               finally_block
                 (if request_fails e (''/api/chat'', page_payload a input)
                     \<or> unreadable_reply e (''/api/chat'', page_payload a input)
                  then page_append st' a (errorMessage e) (now_reply e)
                  else (page_reply e st' a input
                          (fallback_reply e (''/api/chat'', page_payload a input)))
                       \<lparr>showSummary := True\<rparr>)"
proof -
  let ?st1 = "reset_streaming (page_append st a (userMessage e input) (now_sent e))"
  from page_try_stream_fails [OF assms(4), of ?st1]
  obtain x st' where s: "page_try_stream e ?st1 a input
      = (Some x, st', [(''/api/chat/stream'', page_payload a input)])"
    "chat_messages st' = chat_messages ?st1" "session_store st' = session_store ?st1" by blast
  have "chat_messages st' = chat_messages st @ [userMessage e input]"
    "session_store st'
       = store_after (session_store st)
           (addMessageToSession (session_store st) (session_id a) (userMessage e input)
              (now_sent e))"
    using s(2,3) by (simp_all add: reset_streaming_def page_append_def)
  moreover have "fst (sendMessage_page e st input) =
               finally_block
                 (if request_fails e (''/api/chat'', page_payload a input)
                     \<or> unreadable_reply e (''/api/chat'', page_payload a input)
                  then page_append st' a (errorMessage e) (now_reply e)
                  else (page_reply e st' a input
                          (fallback_reply e (''/api/chat'', page_payload a input)))
                       \<lparr>showSummary := True\<rparr>)"
    using assms(1-3) s(1)
    by (simp add: sendMessage_page_def Let_def page_try_fallback_result)
  ultimately show ?thesis by blast
qed

lemma sendMessage_hook_stream_failed:
  assumes "trim input \<noteq> []" "\<not> isLoading st"
    and "request_fails e (''/api/chat/stream'', hook_payload st input)
         \<or> read_error e (''/api/chat/stream'', hook_payload st input)
         \<or> no_body e (''/api/chat/stream'', hook_payload st input)"
  shows "\<exists>st'. chat_messages st' = chat_messages st @ [userMessage e input]
           \<and> fst (sendMessage_hook e st input) =
               finally_block
                 (if request_fails e (''/api/chat'', hook_payload st input)
                     \<or> unreadable_reply e (''/api/chat'', hook_payload st input)
                  then hook_append st' (errorMessage e)
                  else (hook_append st' (fallback_reply e (''/api/chat'', hook_payload st input)))
                       \<lparr>showSummary := True\<rparr>)"
proof -
  let ?st1 = "reset_streaming (hook_append st (userMessage e input))"
  have p: "hook_payload ?st1 input = hook_payload st input"
    by (simp add: hook_payload_def reset_streaming_def hook_append_def)
  from hook_try_stream_fails [of e ?st1 input] assms(3) p
  obtain x st' where s: "hook_try_stream e ?st1 input
      = (Some x, st', [(''/api/chat/stream'', hook_payload st input)])"
      "chat_messages st' = chat_messages ?st1"
      "hook_sessionId st' = hook_sessionId ?st1" by auto
  then have p': "hook_payload st' input = hook_payload st input"
    using p by (simp add: hook_payload_def)
  have "chat_messages st' = chat_messages st @ [userMessage e input]"
    using s(2) by (simp add: reset_streaming_def hook_append_def)
  moreover have "fst (sendMessage_hook e st input) =
               finally_block
                 (if request_fails e (''/api/chat'', hook_payload st input)
                     \<or> unreadable_reply e (''/api/chat'', hook_payload st input)
                  then hook_append st' (errorMessage e)
                  else (hook_append st' (fallback_reply e (''/api/chat'', hook_payload st input)))
                       \<lparr>showSummary := True\<rparr>)"
    using assms(1,2) s(1) p'
    by (simp add: sendMessage_hook_def Let_def hook_try_fallback_result)
  ultimately show ?thesis by blast
qed

lemma addMessage_ok:
  assumes "role m = Assistant \<or> (\<exists>c. content m = JStr c)"
  shows "store_after st (addMessageToSession st sid m now) =
     st\<lparr>sessions :=
          map (\<lambda>s. if session_id s = sid then
                      s\<lparr>name := (if length (messages s) = 0 \<and> role m = User
                                  then the (derived_name (content m)) else name s),
                        messages := messages s @ [m],
                        updatedAt := Date now\<rparr>
                    else s)
              (sessions st)\<rparr>"
  using assms by (auto simp: addMessageToSession_def store_after_def)

lemma messages_addMessage_twice:
  assumes "role m = Assistant \<or> (\<exists>c. content m = JStr c)"
    and "role m' = Assistant \<or> (\<exists>c. content m' = JStr c)"
  shows "map messages
           (sessions (store_after (store_after st (addMessageToSession st sid m now))
              (addMessageToSession (store_after st (addMessageToSession st sid m now))
                 sid m' now')))
   = map (\<lambda>s. if session_id s = sid then messages s @ [m, m'] else messages s) (sessions st)"
  unfolding addMessage_ok [OF assms(1)] addMessage_ok [OF assms(2)]
  by (simp add: comp_def if_distrib cong: if_cong)

text \<open>
  Claim C5.  When the streaming request and the fallback request both fail,
  \<^verbatim>\<open>sendMessage\<close> ends with the user message and then one assistant message with the
  fixed apology appended to the messages of the view and, on the page, to the
  transcript of the active session.  The model of \<^verbatim>\<open>sendMessage\<close> has no exceptional
  result: every exception of the two \<^verbatim>\<open>try\<close> blocks is caught.
\<close>

theorem C5:
  "(activeSession (session_store st) = Some a \<and> trim input \<noteq> [] \<and> \<not> isLoading st
      \<and> (request_fails e (''/api/chat/stream'', page_payload a input)
           \<or> read_error e (''/api/chat/stream'', page_payload a input))
      \<and> (request_fails e (''/api/chat'', page_payload a input)
           \<or> unreadable_reply e (''/api/chat'', page_payload a input))
     \<longrightarrow> chat_messages (fst (sendMessage_page e st input))
            = chat_messages st @ [userMessage e input, errorMessage e]
        \<and> map messages (sessions (session_store (fst (sendMessage_page e st input))))
            = map (\<lambda>s. if session_id s = session_id a
                        then messages s @ [userMessage e input, errorMessage e]
                        else messages s)
                  (sessions (session_store st)))
   \<and> (trim input \<noteq> [] \<and> \<not> isLoading hs
      \<and> (request_fails e (''/api/chat/stream'', hook_payload hs input)
           \<or> read_error e (''/api/chat/stream'', hook_payload hs input)
           \<or> no_body e (''/api/chat/stream'', hook_payload hs input))
      \<and> (request_fails e (''/api/chat'', hook_payload hs input)
           \<or> unreadable_reply e (''/api/chat'', hook_payload hs input))
     \<longrightarrow> chat_messages (fst (sendMessage_hook e hs input))
            = chat_messages hs @ [userMessage e input, errorMessage e])
   \<and> role (errorMessage e) = Assistant
   \<and> content (errorMessage e) = JStr ''Sorry, I encountered an error processing your request.''"
proof -
  have page: "chat_messages (fst (sendMessage_page e st input))
            = chat_messages st @ [userMessage e input, errorMessage e]
        \<and> map messages (sessions (session_store (fst (sendMessage_page e st input))))
            = map (\<lambda>s. if session_id s = session_id a
                        then messages s @ [userMessage e input, errorMessage e]
                        else messages s)
                  (sessions (session_store st))"
    if g: "activeSession (session_store st) = Some a" "trim input \<noteq> []" "\<not> isLoading st"
      and s: "request_fails e (''/api/chat/stream'', page_payload a input)
           \<or> read_error e (''/api/chat/stream'', page_payload a input)"
      and f: "request_fails e (''/api/chat'', page_payload a input)
           \<or> unreadable_reply e (''/api/chat'', page_payload a input)"
  proof -
    from sendMessage_page_stream_failed [OF g s] f
    obtain st' where st': "chat_messages st' = chat_messages st @ [userMessage e input]"
      "session_store st'
         = store_after (session_store st)
             (addMessageToSession (session_store st) (session_id a) (userMessage e input)
                (now_sent e))"
      "fst (sendMessage_page e st input)
         = finally_block (page_append st' a (errorMessage e) (now_reply e))"
      by auto
    have u: "role (userMessage e input) = Assistant \<or> (\<exists>c. content (userMessage e input) = JStr c)"
      by (simp add: userMessage_def)
    have r: "role (errorMessage e) = Assistant \<or> (\<exists>c. content (errorMessage e) = JStr c)"
      by (simp add: errorMessage_def assistantMessage_def)
    show ?thesis
      by (simp add: st' page_append_def messages_addMessage_twice [OF u r])
  qed
  have hook: "chat_messages (fst (sendMessage_hook e hs input))
            = chat_messages hs @ [userMessage e input, errorMessage e]"
    if g: "trim input \<noteq> []" "\<not> isLoading hs"
      and s: "request_fails e (''/api/chat/stream'', hook_payload hs input)
           \<or> read_error e (''/api/chat/stream'', hook_payload hs input)
           \<or> no_body e (''/api/chat/stream'', hook_payload hs input)"
      and f: "request_fails e (''/api/chat'', hook_payload hs input)
           \<or> unreadable_reply e (''/api/chat'', hook_payload hs input)"
  proof -
    from sendMessage_hook_stream_failed [OF g s] f
    obtain st' where st': "chat_messages st' = chat_messages hs @ [userMessage e input]"
      "fst (sendMessage_hook e hs input) = finally_block (hook_append st' (errorMessage e))"
      by auto
    show ?thesis by (simp add: st' hook_append_def)
  qed
  have "role (errorMessage e) = Assistant
     \<and> content (errorMessage e) = JStr ''Sorry, I encountered an error processing your request.''"
    by (simp add: errorMessage_def assistantMessage_def apology_def)
  with page hook show ?thesis by blast
qed

text \<open>
  Claim C5 at a server that answers 500 and is then unreachable.
\<close>

theorem C5_witness:
  "request_fails env_500 (''/api/chat/stream'', page_payload sample_session ''hi'')
   \<and> request_fails env_500 (''/api/chat'', page_payload sample_session ''hi'')
   \<and> map content (chat_messages (fst (sendMessage_page env_500 sample_page ''hi'')))
       = [JStr ''hi'', JStr ''Sorry, I encountered an error processing your request.'']
   \<and> map (map content) (map messages
         (sessions (session_store (fst (sendMessage_page env_500 sample_page ''hi'')))))
       = [[JStr ''hi'', JStr ''Sorry, I encountered an error processing your request.'']]
   \<and> map content (chat_messages (fst (sendMessage_hook env_500 sample_hook ''hi'')))
       = [JStr ''hi'', JStr ''Sorry, I encountered an error processing your request.'']"
  using C5 [of sample_page sample_session "''hi''" env_500 sample_hook]
  by (simp add: activeSession_def sample_page_def sample_hook_def sample_store_def
      sample_session_def env_500_def request_fails_def page_payload_def hook_payload_def
      trim_def is_space_def userMessage_def errorMessage_def assistantMessage_def apology_def)

subsection \<open>When the stream breaks\<close>

lemma page_stream_completed:
  assumes "activeSession (session_store st) = Some a" "trim input \<noteq> []" "\<not> isLoading st"
    and "fetch e (''/api/chat/stream'', page_payload a input) = Inr res"
    and "ok res" "body res = Some b" "\<not> read_fails b"
  shows "chat_messages (fst (sendMessage_page e st input))
         = chat_messages st
           @ [userMessage e input,
              assistantMessage e
                (JStr (or_no_response (streamingContentRef
                   (foldl (feed (parse e)) (loop_start (stream (reset_streaming st))) (chunks b)))))
                None]"
proof -
  have "stream (reset_streaming (page_append st a (userMessage e input) (now_sent e)))
        = stream (reset_streaming st)"
    by (simp add: reset_streaming_def page_append_def)
  with assms show ?thesis
    by (simp add: sendMessage_page_def page_try_stream_def read_all_def Let_def stream_done_def)
       (simp add: reset_streaming_def page_append_def)
qed

lemma hook_stream_completed:
  assumes "trim input \<noteq> []" "\<not> isLoading st"
    and "fetch e (''/api/chat/stream'', hook_payload st input) = Inr res"
    and "ok res" "body res = Some b" "\<not> read_fails b"
  shows "chat_messages (fst (sendMessage_hook e st input))
         = chat_messages st
           @ [userMessage e input,
              assistantMessage e
                (JStr (or_no_response (streamingContentRef
                   (foldl (feed (parse e)) (loop_start (stream (reset_streaming st))) (chunks b)))))
                None]"
proof -
  let ?st1 = "reset_streaming (hook_append st (userMessage e input))"
  have p: "hook_payload ?st1 input = hook_payload st input"
    by (simp add: hook_payload_def reset_streaming_def hook_append_def)
  have "stream ?st1 = stream (reset_streaming st)"
    by (simp add: reset_streaming_def hook_append_def)
  with assms p show ?thesis
    by (simp add: sendMessage_hook_def hook_try_stream_def read_all_def Let_def stream_done_def)
       (simp add: reset_streaming_def hook_append_def)
qed

text \<open>
  Claim C6, as amended.  When a read of the stream rejects, the content accumulated
  so far is not used: the assistant message is the one the fallback request leads to
  (its reply, or the apology), and the published streaming content is cleared.  The
  accumulated content becomes the assistant message only when the stream ends
  normally.
\<close>

theorem C6_amended:
  "(activeSession (session_store st) = Some a \<and> trim input \<noteq> [] \<and> \<not> isLoading st
      \<and> read_error e (''/api/chat/stream'', page_payload a input)
     \<longrightarrow> chat_messages (fst (sendMessage_page e st input))
            = chat_messages st
              @ [userMessage e input, fallback_reply e (''/api/chat'', page_payload a input)]
        \<and> streamingContent (stream (fst (sendMessage_page e st input))) = [])
   \<and> (trim input \<noteq> [] \<and> \<not> isLoading hs
      \<and> read_error e (''/api/chat/stream'', hook_payload hs input)
     \<longrightarrow> chat_messages (fst (sendMessage_hook e hs input))
            = chat_messages hs
              @ [userMessage e input, fallback_reply e (''/api/chat'', hook_payload hs input)]
        \<and> streamingContent (stream (fst (sendMessage_hook e hs input))) = [])
   \<and> (activeSession (session_store st) = Some a \<and> trim input \<noteq> [] \<and> \<not> isLoading st
      \<and> fetch e (''/api/chat/stream'', page_payload a input) = Inr res
      \<and> ok res \<and> body res = Some b \<and> \<not> read_fails b
     \<longrightarrow> chat_messages (fst (sendMessage_page e st input))
            = chat_messages st
              @ [userMessage e input,
                 assistantMessage e
                   (JStr (or_no_response (streamingContentRef
                      (foldl (feed (parse e)) (loop_start (stream (reset_streaming st)))
                         (chunks b)))))
                   None])
   \<and> (trim input \<noteq> [] \<and> \<not> isLoading hs
      \<and> fetch e (''/api/chat/stream'', hook_payload hs input) = Inr res
      \<and> ok res \<and> body res = Some b \<and> \<not> read_fails b
     \<longrightarrow> chat_messages (fst (sendMessage_hook e hs input))
            = chat_messages hs
              @ [userMessage e input,
                 assistantMessage e
                   (JStr (or_no_response (streamingContentRef
                      (foldl (feed (parse e)) (loop_start (stream (reset_streaming hs)))
                         (chunks b)))))
                   None])"
proof -
  have page: "chat_messages (fst (sendMessage_page e st input))
            = chat_messages st
              @ [userMessage e input, fallback_reply e (''/api/chat'', page_payload a input)]
        \<and> streamingContent (stream (fst (sendMessage_page e st input))) = []"
    if g: "activeSession (session_store st) = Some a" "trim input \<noteq> []" "\<not> isLoading st"
      and s: "read_error e (''/api/chat/stream'', page_payload a input)"
  proof -
    from s have s': "request_fails e (''/api/chat/stream'', page_payload a input)
         \<or> read_error e (''/api/chat/stream'', page_payload a input)" ..
    from sendMessage_page_stream_failed [OF g s']
    obtain st' where st': "chat_messages st' = chat_messages st @ [userMessage e input]"
      "fst (sendMessage_page e st input) =
               finally_block
                 (if request_fails e (''/api/chat'', page_payload a input)
                     \<or> unreadable_reply e (''/api/chat'', page_payload a input)
                  then page_append st' a (errorMessage e) (now_reply e)
                  else (page_reply e st' a input
                          (fallback_reply e (''/api/chat'', page_payload a input)))
                       \<lparr>showSummary := True\<rparr>)"
      by blast
    show ?thesis
      by (simp add: st' page_append_def fallback_reply_def)
  qed
  have hook: "chat_messages (fst (sendMessage_hook e hs input))
            = chat_messages hs
              @ [userMessage e input, fallback_reply e (''/api/chat'', hook_payload hs input)]
        \<and> streamingContent (stream (fst (sendMessage_hook e hs input))) = []"
    if g: "trim input \<noteq> []" "\<not> isLoading hs"
      and s: "read_error e (''/api/chat/stream'', hook_payload hs input)"
  proof -
    from s have s': "request_fails e (''/api/chat/stream'', hook_payload hs input)
         \<or> read_error e (''/api/chat/stream'', hook_payload hs input)
         \<or> no_body e (''/api/chat/stream'', hook_payload hs input)" by simp
    from sendMessage_hook_stream_failed [OF g s']
    obtain st' where st': "chat_messages st' = chat_messages hs @ [userMessage e input]"
      "fst (sendMessage_hook e hs input) =
               finally_block
                 (if request_fails e (''/api/chat'', hook_payload hs input)
                     \<or> unreadable_reply e (''/api/chat'', hook_payload hs input)
                  then hook_append st' (errorMessage e)
                  else (hook_append st' (fallback_reply e (''/api/chat'', hook_payload hs input)))
                       \<lparr>showSummary := True\<rparr>)"
      by blast
    show ?thesis
      by (simp add: st' hook_append_def fallback_reply_def)
  qed
  from page hook page_stream_completed hook_stream_completed show ?thesis by blast
qed

text \<open>
  Claim C6 as stated fails: the stream delivers \<^verbatim>\<open>hello\<close> and breaks, the fallback
  answers \<^verbatim>\<open>R\<close>, and the messages are the user's \<^verbatim>\<open>hi\<close> and \<^verbatim>\<open>R\<close>.
\<close>

theorem C6_counterexample:
  "read_error env_broken_stream (''/api/chat/stream'', page_payload sample_session ''hi'')
   \<and> streamingContentRef
        (foldl (feed (parse env_broken_stream)) (loop_start (stream (reset_streaming sample_page)))
           [''data: hello'' @ [CHR 0x0A]])
      = ''hello''
   \<and> map content (chat_messages (fst (sendMessage_page env_broken_stream sample_page ''hi'')))
      = [JStr ''hi'', JStr ''R'']"
  by (simp add: eval_send Let_def feed_def eval_line)

text \<open>
  Claim C6, as amended, at a stream that breaks and at a stream that ends normally.
\<close>

theorem C6_amended_witness:
  "read_error env_broken_stream (''/api/chat/stream'', page_payload sample_session ''hi'')
   \<and> fallback_reply env_broken_stream (''/api/chat'', page_payload sample_session ''hi'')
      = assistantMessage env_broken_stream (JStr ''R'') None
   \<and> chat_messages (fst (sendMessage_page env_broken_stream sample_page ''hi''))
      = [userMessage env_broken_stream ''hi'',
         assistantMessage env_broken_stream (JStr ''R'') None]
   \<and> chat_messages (fst (sendMessage_hook env_broken_stream sample_hook ''hi''))
      = [userMessage env_broken_stream ''hi'',
         assistantMessage env_broken_stream (JStr ''R'') None]
   \<and> chat_messages (fst (sendMessage_page env_stream_ok sample_page ''hi''))
      = [userMessage env_stream_ok ''hi'', assistantMessage env_stream_ok (JStr ''xy'') None]
   \<and> chat_messages (fst (sendMessage_hook env_stream_ok sample_hook ''hi''))
      = [userMessage env_stream_ok ''hi'', assistantMessage env_stream_ok (JStr ''xy'') None]"
proof -
  let ?b = "BodyStream [frame_text (''progress'', running_payload),
                        frame_text (''progress'', completed_payload)] False"
  let ?res = "\<lparr> ok = True, http_status = 200, body = Some ?b, json_body = None \<rparr>"
  have s: "loop_start (stream (reset_streaming sample_page)) = init_stream"
    "loop_start (stream (reset_streaming sample_hook)) = init_stream"
    by (simp_all add: loop_start_def reset_streaming_def sample_page_def sample_hook_def
        init_stream_def)
  have c: "streamingContentRef (foldl (feed sample_parse) init_stream (chunks ?b)) = ''xy''"
    by (simp add: feed_def frame_text_def init_stream_def process_line_def
      dispatch_def append_raw_def upsert_def newStep_def same_key_def trim_def is_space_def
      startsWith_def slice_def running_payload_def completed_payload_def sample_parse_def)
  from C6_amended [of sample_page sample_session "''hi''" env_broken_stream sample_hook]
  have broken:
    "chat_messages (fst (sendMessage_page env_broken_stream sample_page ''hi''))
      = [userMessage env_broken_stream ''hi'',
         assistantMessage env_broken_stream (JStr ''R'') None]"
    "chat_messages (fst (sendMessage_hook env_broken_stream sample_hook ''hi''))
      = [userMessage env_broken_stream ''hi'',
         assistantMessage env_broken_stream (JStr ''R'') None]"
    by (simp_all add: activeSession_def sample_page_def sample_hook_def sample_store_def
      sample_session_def env_broken_stream_def read_error_def request_fails_def
      unreadable_reply_def fallback_reply_def fallback_content_def page_payload_def
      hook_payload_def trim_def is_space_def)
  from C6_amended [of sample_page sample_session "''hi''" env_stream_ok sample_hook ?res ?b]
  have good:
    "chat_messages (fst (sendMessage_page env_stream_ok sample_page ''hi''))
      = [userMessage env_stream_ok ''hi'', assistantMessage env_stream_ok (JStr ''xy'') None]"
    "chat_messages (fst (sendMessage_hook env_stream_ok sample_hook ''hi''))
      = [userMessage env_stream_ok ''hi'', assistantMessage env_stream_ok (JStr ''xy'') None]"
    using s c
    by (simp_all add: activeSession_def sample_page_def sample_hook_def sample_store_def
      sample_session_def env_stream_ok_def page_payload_def hook_payload_def trim_def
      is_space_def or_no_response_def)
  have "read_error env_broken_stream (''/api/chat/stream'', page_payload sample_session ''hi'')"
    by (simp add: read_error_def env_broken_stream_def)
  moreover have "fallback_reply env_broken_stream (''/api/chat'', page_payload sample_session ''hi'')
      = assistantMessage env_broken_stream (JStr ''R'') None"
    by (simp add: fallback_reply_def fallback_content_def request_fails_def unreadable_reply_def
        env_broken_stream_def)
  ultimately show ?thesis using broken good by simp
qed

subsection \<open>Saving and loading the sessions\<close>

lemma load_message_wire:
  assumes "date_round_trips r (timestamp m)"
  shows "load_message r (wire r (message_obj m)) = Inr (message_obj m)"
proof -
  from assms obtain t where t: "timestamp m = Date t" "date_of_string r (toISOString r t) = Date t"
    by (auto simp: date_round_trips_def split: date.splits)
  show ?thesis
    by (cases "toolCalls m")
       (simp_all add: load_message_def message_obj_def t spread_def set_prop_def)
qed

lemma map_all_load_message:
  "list_all (\<lambda>m. date_round_trips r (timestamp m)) ms \<Longrightarrow>
   map_all (load_message r) (map (\<lambda>m. wire r (message_obj m)) ms) = Inr (map message_obj ms)"
  by (induction ms) (simp_all add: load_message_wire)

lemma load_session_wire:
  assumes "list_all (date_round_trips r) (session_dates s)"
  shows "load_session r (wire r (session_obj s)) = Inr (session_obj s)"
proof -
  from assms obtain c u where cu: "createdAt s = Date c" "updatedAt s = Date u"
    "date_of_string r (toISOString r c) = Date c" "date_of_string r (toISOString r u) = Date u"
    by (auto simp: session_dates_def date_round_trips_def split: date.splits)
  from assms have ms: "list_all (\<lambda>m. date_round_trips r (timestamp m)) (messages s)"
    by (simp add: session_dates_def list_all_iff)
  have lm: "load_messages r (Some (JArr (map (\<lambda>m. wire r (message_obj m)) (messages s))))
        = Inr (Arr (map message_obj (messages s)))"
    by (simp add: load_messages_def map_all_load_message [OF ms])
  show ?thesis
    by (simp add: load_session_def session_obj_def cu spread_def set_prop_def comp_def lm)
qed

lemma map_all_load_session:
  "list_all (\<lambda>s. list_all (date_round_trips r) (session_dates s)) ss \<Longrightarrow>
   map_all (load_session r) (map (\<lambda>s. wire r (session_obj s)) ss) = Inr (map session_obj ss)"
  by (induction ss) (simp_all add: load_session_wire)

text \<open>
  Claim C9, as amended.  For sessions all of whose dates (creation, update, message
  timestamps) are valid and are given back by the \<^verbatim>\<open>Date\<close> constructor from their ISO
  text, when \<^verbatim>\<open>JSON.parse\<close> gives back the value that \<^verbatim>\<open>JSON.stringify\<close> serialised
  and the write to the store succeeds, \<^verbatim>\<open>loadSessions\<close> after \<^verbatim>\<open>saveSessions\<close> returns
  the sessions that were saved, property for property, the dates rebuilt from their
  ISO text.
\<close>

theorem C9_amended:
  assumes "list_all (\<lambda>s. list_all (date_round_trips r) (session_dates s)) ss"
    and "js_parse r (js_stringify r (JArr (map (\<lambda>s. wire r (session_obj s)) ss)))
         = Some (JArr (map (\<lambda>s. wire r (session_obj s)) ss))"
    and "js_stringify r (JArr (map (\<lambda>s. wire r (session_obj s)) ss)) \<noteq> []"
    and "\<not> setItem_throws r STORAGE_KEY
           (js_stringify r (JArr (map (\<lambda>s. wire r (session_obj s)) ss)))"
  shows "loadSessions r (saveSessions r ls (map session_obj ss)) = map session_obj ss"
  using assms(2-4)
  by (simp add: loadSessions_def saveSessions_def Let_def comp_def
      map_all_load_session [OF assms(1)])

lemmas eval_store =
  loadSessions_def saveSessions_def load_session_def load_messages_def load_message_def
  session_obj_def message_obj_def role_text_def spread_def set_prop_def STORAGE_KEY_def
  sample_runtime_def full_runtime_def stored_session_def stored_json_def stored_text_def
  undated_session_def undated_json_def undated_text_def sample_session_def
  session_dates_def date_round_trips_def

text \<open>
  Claim C9 as stated fails: an invalid creation date is stored as \<^verbatim>\<open>null\<close> and comes
  back as the date with time value 0; and when the write to a full store throws,
  nothing is stored and \<^verbatim>\<open>loadSessions\<close> returns the empty array.
\<close>

theorem C9_counterexample:
  "loadSessions sample_runtime (saveSessions sample_runtime Map.empty [session_obj undated_session])
     = [session_obj (undated_session\<lparr>createdAt := Date 0\<rparr>)]
   \<and> createdAt undated_session = InvalidDate
   \<and> loadSessions full_runtime (saveSessions full_runtime Map.empty [session_obj stored_session])
     = []"
  by (simp add: eval_store Let_def)

text \<open>
  Claim C9, as amended, at a session with one message.
\<close>

theorem C9_amended_witness:
  "list_all (\<lambda>s. list_all (date_round_trips sample_runtime) (session_dates s)) [stored_session]
   \<and> js_stringify sample_runtime (JArr [wire sample_runtime (session_obj stored_session)])
      = stored_text
   \<and> loadSessions sample_runtime
        (saveSessions sample_runtime Map.empty [session_obj stored_session])
      = [session_obj stored_session]"
  using C9_amended [of sample_runtime "[stored_session]" Map.empty]
  by (simp add: eval_store)

end
